theory Spec2Isabelle
  imports Main "HOL-Library.Sublist"
begin

section \<open>JavaScript values used by the settlement code\<close>

text \<open>
  Quantities are JavaScript numbers holding integers (the columns \<^verbatim>\<open>quantity\<close> of
  \<^verbatim>\<open>stock_batches\<close>, \<^verbatim>\<open>sale_items\<close> and \<^verbatim>\<open>return_items\<close> are INTEGER): they are
  modelled as \<open>int\<close>, which agrees with a JavaScript number as long as the value stays
  below \<open>2^53\<close> in magnitude. Money amounts are modelled as \<open>int\<close> as well (an amount in
  minor units); no property below depends on them. Strings are lists of code units
  below 256.
\<close>

subsection \<open>Number to string, padding, slicing, splitting, parseInt\<close>

definition digit_char :: "nat \<Rightarrow> char" where
  "digit_char d = ''0123456789'' ! d"

text \<open>\<^verbatim>\<open>n.toString()\<close> for a non-negative integer.\<close>

fun show_nat :: "nat \<Rightarrow> string" where
  "show_nat n = (if n < 10 then [digit_char n] else show_nat (n div 10) @ [digit_char (n mod 10)])"

declare show_nat.simps [simp del]

text \<open>\<^verbatim>\<open>n.toString()\<close> for an integer.\<close>

definition show_int :: "int \<Rightarrow> string" where
  "show_int i = (if i < 0 then CHR ''-'' # show_nat (nat (- i)) else show_nat (nat i))"

text \<open>\<^verbatim>\<open>s.padStart(n, c)\<close> with a one-character filler: pads, never truncates.\<close>

definition padStart :: "nat \<Rightarrow> char \<Rightarrow> string \<Rightarrow> string" where
  "padStart n c s = replicate (n - length s) c @ s"

text \<open>\<^verbatim>\<open>s.slice(-n)\<close>: the last \<open>n\<close> characters, the whole string when it is shorter.\<close>

definition slice_last :: "nat \<Rightarrow> string \<Rightarrow> string" where
  "slice_last n s = drop (length s - n) s"

text \<open>\<^verbatim>\<open>s.split(c)\<close> with a one-character separator; the empty string gives one empty part.\<close>

fun split_on :: "char \<Rightarrow> string \<Rightarrow> string list" where
  "split_on c [] = [[]]"
| "split_on c (x # xs) =
     (if x = c then [] # split_on c xs
      else (case split_on c xs of
              [] \<Rightarrow> [[x]]
            | p # ps \<Rightarrow> (x # p) # ps))"

definition is_space :: "char \<Rightarrow> bool" where
  "is_space c = ((of_char c :: nat) \<in> {9, 10, 11, 12, 13, 32, 160})"

definition is_digit :: "char \<Rightarrow> bool" where
  "is_digit c = (48 \<le> (of_char c :: nat) \<and> (of_char c :: nat) \<le> 57)"

definition digits_value :: "string \<Rightarrow> nat" where
  "digits_value ds = foldl (\<lambda>acc c. 10 * acc + ((of_char c :: nat) - 48)) 0 ds"

text \<open>
  The number that \<^verbatim>\<open>parseInt\<close> returns is a double. The model follows it as far as a
  double is exact: \<open>NaN\<close>; an integer below \<open>2^53 = 9007199254740992\<close> in magnitude,
  which a double holds exactly, to which 1 is added exactly and which \<^verbatim>\<open>toString\<close>
  prints digit by digit; or \<open>Unsafe\<close>, a number of magnitude \<open>2^53\<close> or more, where
  doubles round and the model does not say what results.
\<close>

datatype js_number = NaN | Exact int | Unsafe

text \<open>
  \<^verbatim>\<open>parseInt(s, 10)\<close>: leading white space is skipped, one sign is accepted, then the
  longest run of decimal digits is read and whatever follows it is ignored; \<open>NaN\<close>
  when no digit stands where the number should start.
\<close>

definition parseInt10 :: "string \<Rightarrow> js_number" where
  "parseInt10 s =
     (let t = dropWhile is_space s;
          neg = (case t of [] \<Rightarrow> False | c # r \<Rightarrow> c = CHR ''-'');
          u = (case t of [] \<Rightarrow> [] | c # r \<Rightarrow> if c = CHR ''-'' \<or> c = CHR ''+'' then r else t);
          ds = takeWhile is_digit u
      in if ds = [] then NaN
         else if digits_value ds < 9007199254740992
         then Exact (if neg then - int (digits_value ds) else int (digits_value ds))
         else Unsafe)"

subsection \<open>Thrown values, storage replies, results of asynchronous functions\<close>

text \<open>
  A thrown value is either an \<^verbatim>\<open>Error\<close> object with its message or any other value
  (\<^verbatim>\<open>err instanceof Error\<close> is false for it).
\<close>

datatype exn = Error string | NonError

text \<open>
  How one call of the storage client ends: it is carried out and answers with data;
  it answers \<^verbatim>\<open>{data: null, error}\<close> and changes nothing; or the awaited promise is
  rejected and nothing is changed.
\<close>

datatype fault = Performed | ErrorReturned exn | Rejected exn

text \<open>An asynchronous function either resolves to a value or rejects with a thrown value.\<close>

datatype 'a outcome = Returned 'a | Thrown exn

text \<open>\<^verbatim>\<open>err instanceof Error ? err.message : dflt\<close>\<close>

definition errorMessage :: "exn \<Rightarrow> string \<Rightarrow> string" where
  "errorMessage err dflt = (case err of Error m \<Rightarrow> m | NonError \<Rightarrow> dflt)"

section \<open>Data model (src/hooks/useSales.ts)\<close>

record BatchDeduction =
  bd_batch_id :: string
  bd_batch_number :: string
  bd_quantity :: int
  bd_expiry_date :: string

record CartItem =
  ci_product_id :: string
  ci_product_name :: string
  ci_strength :: "string option"
  ci_quantity :: int
  ci_unit_price :: int
  ci_total :: int
  ci_available_stock :: int

text \<open>
  An available batch as the collaborator hands it over. The fields the code guards with
  \<^verbatim>\<open>|| 0\<close> and \<^verbatim>\<open>|| ''\<close> may be missing.
\<close>

record AvailableBatch =
  ab_id :: string
  ab_batch_number :: "string option"
  ab_quantity :: "int option"
  ab_expiry_date :: "string option"

record ItemWithDeductions =
  iwd_product_id :: string
  iwd_product_name :: string
  iwd_quantity :: int
  iwd_unit_price :: int
  iwd_total :: int
  iwd_batch_deductions :: "BatchDeduction list"

subsection \<open>The store: the five tables the settlement code reads and writes\<close>

record sale_row =
  sr_id :: string
  sr_receipt_number :: string
  sr_total :: int
  sr_payment_method :: string
  sr_cashier_id :: "string option"
  sr_created_at :: nat

record sale_item_row =
  si_id :: string
  si_sale_id :: string
  si_product_id :: string
  si_product_name :: string
  si_quantity :: int
  si_unit_price :: int
  si_total :: int
  si_batch_deductions :: "BatchDeduction list option"

record sales_return_row =
  rr_id :: string
  rr_sale_id :: string
  rr_receipt_number :: string
  rr_return_reason :: string
  rr_returned_by :: "string option"

record return_item_row =
  ri_return_id :: string
  ri_sale_item_id :: string
  ri_product_id :: string
  ri_batch_id :: "string option"
  ri_quantity :: int

record store =
  sales :: "sale_row list"
  sale_items :: "sale_item_row list"
  sales_returns :: "sales_return_row list"
  return_items :: "return_item_row list"
  stock_batches :: "string \<rightharpoonup> int"

section \<open>Receipt numbering (generateReceiptNumber, lines 131-160)\<close>

text \<open>
  Lines 141-151: the number computed from the answer of the lookup. \<open>nextNum\<close> is
  \<open>Inr n\<close> for an integer that the model follows. When the suffix parses to a number of
  magnitude \<open>2^53\<close> or more, what \<^verbatim>\<open>(num + 1).toString()\<close> prints is floating-point
  behaviour outside the model: it is taken as the parameter \<open>big\<close>, a function of the
  suffix, and \<open>nextNum\<close> is \<open>Inl\<close> of the digits printed.
\<close>

definition next_receipt_number :: "(string \<Rightarrow> string) \<Rightarrow> string option \<Rightarrow> string" where
  "next_receipt_number big data =
     (let nextNum =
        (case data of
           None \<Rightarrow> Inr 1
         | Some receipt_number \<Rightarrow>
             if receipt_number = [] then Inr 1
             else (let parts = split_on CHR ''-'' receipt_number
                   in if length parts = 2
                      then (case parseInt10 (parts ! 1) of
                              NaN \<Rightarrow> Inr 1
                            | Exact num \<Rightarrow> Inr (num + 1)
                            | Unsafe \<Rightarrow> Inl (big (parts ! 1)))
                      else Inr 1))
      in ''ZZ-'' @ padStart 5 CHR ''0''
           (case nextNum of Inr n \<Rightarrow> show_int n | Inl printed \<Rightarrow> printed))"

text \<open>\<^verbatim>\<open>.ilike('receipt_number', 'ZZ-%')\<close>: the prefix, compared without regard to case.\<close>

definition ilike_ZZ :: "string \<Rightarrow> bool" where
  "ilike_ZZ r =
     (case r of
        a # b # c # rest \<Rightarrow>
          (a = CHR ''Z'' \<or> a = CHR ''z'') \<and> (b = CHR ''Z'' \<or> b = CHR ''z'') \<and> c = CHR ''-''
      | _ \<Rightarrow> False)"

text \<open>
  \<^verbatim>\<open>.order('created_at', {ascending: false}).limit(1).maybeSingle()\<close>: the row created
  last. SQL leaves the choice among rows of equal \<^verbatim>\<open>created_at\<close> open; the model takes the
  one stored first.
\<close>

fun most_recent :: "sale_row list \<Rightarrow> sale_row option" where
  "most_recent [] = None"
| "most_recent (r # rs) =
     (case most_recent rs of
        None \<Rightarrow> Some r
      | Some r' \<Rightarrow> if sr_created_at r < sr_created_at r' then Some r' else Some r)"

definition latest_receipt :: "store \<Rightarrow> string option" where
  "latest_receipt st =
     map_option sr_receipt_number (most_recent (filter (\<lambda>r. ilike_ZZ (sr_receipt_number r)) (sales st)))"

text \<open>
  The whole function. \<open>q\<close> is how the lookup ends, \<open>now\<close> the clock in milliseconds
  (\<^verbatim>\<open>date.getTime()\<close>) that the fallback of the \<^verbatim>\<open>catch\<close> block reads, \<open>big\<close> the
  parameter of \<open>next_receipt_number\<close>.
\<close>

definition generateReceiptNumber :: "(string \<Rightarrow> string) \<Rightarrow> fault \<Rightarrow> nat \<Rightarrow> store \<Rightarrow> string" where
  "generateReceiptNumber big q now st =
     (case q of
        Performed \<Rightarrow> next_receipt_number big (latest_receipt st)
      | ErrorReturned e \<Rightarrow> next_receipt_number big None
      | Rejected e \<Rightarrow>
          (let timeStr = slice_last 6 (show_nat now) in ''ZZ-'' @ slice_last 5 timeStr))"

section \<open>Sale settlement (processSale, lines 169-322)\<close>

subsection \<open>Validation and FEFO allocation (lines 185-232)\<close>

text \<open>\<^verbatim>\<open>b?.quantity || 0\<close>\<close>

definition quantity_or_zero :: "AvailableBatch option \<Rightarrow> int" where
  "quantity_or_zero b =
     (case b of None \<Rightarrow> 0 | Some batch \<Rightarrow> (case ab_quantity batch of None \<Rightarrow> 0 | Some q \<Rightarrow> q))"

text \<open>\<^verbatim>\<open>s || ''\<close>\<close>

definition string_or_empty :: "string option \<Rightarrow> string" where
  "string_or_empty s = (case s of None \<Rightarrow> [] | Some x \<Rightarrow> x)"

text \<open>Lines 194-196: the \<^verbatim>\<open>reduce\<close> over the available batches.\<close>

definition totalAvailable :: "AvailableBatch option list \<Rightarrow> int" where
  "totalAvailable availableBatches = foldl (\<lambda>sum b. sum + quantity_or_zero b) 0 availableBatches"

text \<open>
  Lines 206-222: the loop over the available batches, started with
  \<open>remainingQty = item.quantity\<close>. A null entry ends the loop (\<^verbatim>\<open>!batch\<close>), a batch
  that contributes nothing is skipped.
\<close>

fun fefo_deductions :: "int \<Rightarrow> AvailableBatch option list \<Rightarrow> BatchDeduction list" where
  "fefo_deductions remainingQty [] = []"
| "fefo_deductions remainingQty (b # bs) =
     (if remainingQty \<le> 0 then []
      else (case b of
              None \<Rightarrow> []
            | Some batch \<Rightarrow>
                (let deductQty = min (quantity_or_zero (Some batch)) remainingQty
                 in if deductQty \<le> 0 then fefo_deductions remainingQty bs
                    else \<lparr>bd_batch_id = ab_id batch,
                          bd_batch_number = string_or_empty (ab_batch_number batch),
                          bd_quantity = deductQty,
                          bd_expiry_date = string_or_empty (ab_expiry_date batch)\<rparr>
                         # fefo_deductions (remainingQty - deductQty) bs)))"

definition insufficient_stock_message :: "string \<Rightarrow> int \<Rightarrow> string" where
  "insufficient_stock_message product_name available =
     ''Insufficient stock for '' @ product_name @ ''. Available: '' @ show_int available"

text \<open>
  Lines 185-232: the loop over the cart. \<open>Inl msg\<close> is the early
  \<^verbatim>\<open>return {success: false, error: msg}\<close>; \<open>Inr\<close> carries \<open>itemsWithDeductions\<close>.
  A cart entry may be null (\<^verbatim>\<open>!item\<close>); an empty string is falsy.
\<close>

fun prepare_items ::
  "(string \<Rightarrow> AvailableBatch option list) \<Rightarrow> CartItem option list \<Rightarrow> string + ItemWithDeductions list"
where
  "prepare_items getAvailableBatches [] = Inr []"
| "prepare_items getAvailableBatches (it # rest) =
     (case it of
        None \<Rightarrow> Inl ''Invalid cart item''
      | Some item \<Rightarrow>
          if ci_product_id item = [] \<or> ci_product_name item = [] then Inl ''Invalid cart item''
          else if totalAvailable (getAvailableBatches (ci_product_id item)) < ci_quantity item
          then Inl (insufficient_stock_message (ci_product_name item)
                      (totalAvailable (getAvailableBatches (ci_product_id item))))
          else (case prepare_items getAvailableBatches rest of
                  Inl msg \<Rightarrow> Inl msg
                | Inr others \<Rightarrow>
                    Inr (\<lparr>iwd_product_id = ci_product_id item,
                          iwd_product_name = ci_product_name item,
                          iwd_quantity = ci_quantity item,
                          iwd_unit_price = ci_unit_price item,
                          iwd_total = ci_total item,
                          iwd_batch_deductions =
                            fefo_deductions (ci_quantity item) (getAvailableBatches (ci_product_id item))\<rparr>
                         # others)))"

subsection \<open>Persistence (lines 234-316)\<close>

text \<open>
  What the surroundings contribute to one call of processSale: the signed-in user, the
  clock, the values the database generates for new rows, how each storage call ends,
  and the parameter \<open>big\<close> of the receipt numbering.
\<close>

record sale_env =
  se_user_id :: "string option"
  se_now :: nat
  se_big_number :: "string \<Rightarrow> string"
  se_receipt_query :: fault
  se_insert_sale :: fault
  se_sale_id :: string
  se_created_at :: nat
  se_insert_items :: fault
  se_item_id :: "nat \<Rightarrow> string"
  se_select_batches :: fault
  se_update_batch :: "nat \<Rightarrow> fault"

record sale_result =
  res_success :: bool
  res_error :: "string option"
  res_sale :: "sale_row option"

text \<open>
  Line 236: \<^verbatim>\<open>items.reduce((sum, item) => sum + item.total, 0)\<close>. The loop above has
  returned on a null entry, so none reaches this line.
\<close>

definition cart_total :: "CartItem option list \<Rightarrow> int" where
  "cart_total items =
     foldl (\<lambda>sum it. sum + (case it of None \<Rightarrow> 0 | Some item \<Rightarrow> ci_total item)) 0 items"

text \<open>Lines 252-260: the rows of \<^verbatim>\<open>sale_items\<close>, the \<open>k\<close>-th with the id the database gives it.\<close>

fun sale_item_rows :: "string \<Rightarrow> (nat \<Rightarrow> string) \<Rightarrow> nat \<Rightarrow> ItemWithDeductions list \<Rightarrow> sale_item_row list" where
  "sale_item_rows sale_id ids k [] = []"
| "sale_item_rows sale_id ids k (item # rest) =
     \<lparr>si_id = ids k,
      si_sale_id = sale_id,
      si_product_id = iwd_product_id item,
      si_product_name = iwd_product_name item,
      si_quantity = iwd_quantity item,
      si_unit_price = iwd_unit_price item,
      si_total = iwd_total item,
      si_batch_deductions = Some (iwd_batch_deductions item)\<rparr>
     # sale_item_rows sale_id ids (Suc k) rest"

text \<open>\<^verbatim>\<open>Set.add\<close>, the set kept in insertion order as \<^verbatim>\<open>Array.from\<close> reads it.\<close>

definition set_add :: "string \<Rightarrow> string list \<Rightarrow> string list" where
  "set_add x xs = (if x \<in> set xs then xs else xs @ [x])"

text \<open>Lines 273-277 (and 385): the batch ids to fetch.\<close>

definition collect_ids :: "string list \<Rightarrow> string list" where
  "collect_ids bids = foldl (\<lambda>ids b. set_add b ids) [] bids"

text \<open>
  Lines 281-287 (and 412-418): the rows of \<^verbatim>\<open>stock_batches\<close> whose id is in the list,
  and the \<^verbatim>\<open>Map\<close> built from them.
\<close>

definition fetch_batches :: "(string \<rightharpoonup> int) \<Rightarrow> string list \<Rightarrow> (string \<times> int) list" where
  "fetch_batches stock ids = concat (map (\<lambda>i. case stock i of None \<Rightarrow> [] | Some q \<Rightarrow> [(i, q)]) ids)"

text \<open>\<^verbatim>\<open>batchMap.get(id) || 0\<close>\<close>

definition get_or_zero :: "(string \<rightharpoonup> int) \<Rightarrow> string \<Rightarrow> int" where
  "get_or_zero batchMap i = (case batchMap i of None \<Rightarrow> 0 | Some q \<Rightarrow> q)"

text \<open>
  Lines 290-296: one update per deduction, each computed from the quantity fetched
  before the loop (the map is not written in this loop).
\<close>

definition sale_batch_updates :: "(string \<rightharpoonup> int) \<Rightarrow> BatchDeduction list \<Rightarrow> (string \<times> int) list" where
  "sale_batch_updates batchMap ds =
     map (\<lambda>deduction. (bd_batch_id deduction, get_or_zero batchMap (bd_batch_id deduction) - bd_quantity deduction)) ds"

text \<open>
  Lines 299-306 (and 431-438): \<^verbatim>\<open>Promise.all\<close> over the updates. Every update is issued;
  \<^verbatim>\<open>.update(..).eq('id', i)\<close> changes the row with that id when there is one; an error
  answer is ignored by the code; a rejection makes \<^verbatim>\<open>Promise.all\<close> reject (the second
  component). The updates take effect in the order they are issued: \<^verbatim>\<open>Promise.all\<close>
  itself promises no order, and a later write to the same row wins.
\<close>

fun apply_updates ::
  "(nat \<Rightarrow> fault) \<Rightarrow> nat \<Rightarrow> (string \<times> int) list \<Rightarrow> (string \<rightharpoonup> int) \<Rightarrow> (string \<rightharpoonup> int) \<times> exn option"
where
  "apply_updates f k [] stock = (stock, None)"
| "apply_updates f k (u # us) stock =
     (case f k of
        Performed \<Rightarrow>
          apply_updates f (Suc k) us (if stock (fst u) = None then stock else stock(fst u \<mapsto> snd u))
      | ErrorReturned e \<Rightarrow> apply_updates f (Suc k) us stock
      | Rejected e \<Rightarrow> (fst (apply_updates f (Suc k) us stock), Some e))"

text \<open>Lines 268-308: the stock after the sale, and the value thrown if any.\<close>

definition apply_sale_deductions ::
  "fault \<Rightarrow> (nat \<Rightarrow> fault) \<Rightarrow> ItemWithDeductions list \<Rightarrow> (string \<rightharpoonup> int) \<Rightarrow> (string \<rightharpoonup> int) \<times> exn option"
where
  "apply_sale_deductions sel upd itemsWithDeductions stock =
     (let ds = concat (map iwd_batch_deductions itemsWithDeductions);
          batchIdsToFetch = collect_ids (map bd_batch_id ds)
      in if batchIdsToFetch = [] then (stock, None)
         else (case sel of
                 Rejected e \<Rightarrow> (stock, Some e)
               | ErrorReturned e \<Rightarrow> (stock, None)
               | Performed \<Rightarrow>
                   apply_updates upd 0
                     (sale_batch_updates (map_of (fetch_batches stock batchIdsToFetch)) ds) stock))"

text \<open>
  The body of the \<^verbatim>\<open>try\<close> block. \<^verbatim>\<open>.insert(..).select().single()\<close> answers with the new
  row or with an error, so \<open>saleData\<close> is present after line 249 and the test of line
  312 never fires. \<^verbatim>\<open>fetchSales\<close> (line 310) refreshes the list kept by the user
  interface, catches its own failures and writes nothing to the store.
\<close>

definition processSale_try ::
  "sale_env \<Rightarrow> store \<Rightarrow> CartItem option list \<Rightarrow> string \<Rightarrow> (string \<Rightarrow> AvailableBatch option list)
     \<Rightarrow> sale_result outcome \<times> store"
where
  "processSale_try env st items paymentMethod getAvailableBatches =
     (case prepare_items getAvailableBatches items of
        Inl msg \<Rightarrow> (Returned \<lparr>res_success = False, res_error = Some msg, res_sale = None\<rparr>, st)
      | Inr itemsWithDeductions \<Rightarrow>
          (case se_insert_sale env of
             Rejected e \<Rightarrow> (Thrown e, st)
           | ErrorReturned e \<Rightarrow> (Thrown e, st)
           | Performed \<Rightarrow>
               (let saleData = \<lparr>sr_id = se_sale_id env,
                                 sr_receipt_number = generateReceiptNumber (se_big_number env) (se_receipt_query env) (se_now env) st,
                                 sr_total = cart_total items,
                                 sr_payment_method = paymentMethod,
                                 sr_cashier_id = se_user_id env,
                                 sr_created_at = se_created_at env\<rparr>;
                    st1 = st\<lparr>sales := sales st @ [saleData]\<rparr>
                in (case se_insert_items env of
                      Rejected e \<Rightarrow> (Thrown e, st1)
                    | ErrorReturned e \<Rightarrow> (Thrown e, st1)
                    | Performed \<Rightarrow>
                        (let st2 = st1\<lparr>sale_items := sale_items st1
                                          @ sale_item_rows (sr_id saleData) (se_item_id env) 0 itemsWithDeductions\<rparr>;
                             r = apply_sale_deductions (se_select_batches env) (se_update_batch env)
                                   itemsWithDeductions (stock_batches st2);
                             st3 = st2\<lparr>stock_batches := fst r\<rparr>
                         in (case snd r of
                               Some e \<Rightarrow> (Thrown e, st3)
                             | None \<Rightarrow>
                                 (Returned \<lparr>res_success = True, res_error = None, res_sale = Some saleData\<rparr>,
                                  st3)))))))"

text \<open>Lines 174 and 317-321: the \<^verbatim>\<open>try\<close> with its \<^verbatim>\<open>catch\<close>.\<close>

definition processSale ::
  "sale_env \<Rightarrow> store \<Rightarrow> CartItem option list \<Rightarrow> string \<Rightarrow> (string \<Rightarrow> AvailableBatch option list)
     \<Rightarrow> sale_result outcome \<times> store"
where
  "processSale env st items paymentMethod getAvailableBatches =
     (case processSale_try env st items paymentMethod getAvailableBatches of
        (Thrown err, st') \<Rightarrow>
          (Returned \<lparr>res_success = False,
                     res_error = Some (errorMessage err ''Failed to process sale''),
                     res_sale = None\<rparr>, st')
      | (Returned r, st') \<Rightarrow> (Returned r, st'))"

section \<open>Return settlement (processReturn, lines 324-449)\<close>

record return_request =
  rq_sale_item_id :: string
  rq_product_id :: string
  rq_quantity :: int
  rq_batch_deductions :: "BatchDeduction list option"

record return_env =
  re_user_id :: "string option"
  re_iso :: string
  re_now :: nat
  re_insert_return :: fault
  re_return_id :: string
  re_insert_items :: fault
  re_select_batches :: fault
  re_update_batch :: "nat \<Rightarrow> fault"

record return_result =
  ret_success :: bool
  ret_error :: "string option"

text \<open>Lines 340-343: \<open>isoString\<close> is \<^verbatim>\<open>date.toISOString()\<close>, \<open>now\<close> is \<^verbatim>\<open>date.getTime()\<close>.\<close>

definition return_receipt_number :: "string \<Rightarrow> nat \<Rightarrow> string" where
  "return_receipt_number isoString now =
     (let dateStr = filter (\<lambda>c. c \<noteq> CHR ''-'') (take 10 isoString);
          timeStr = slice_last 6 (show_nat now)
      in ''RET-'' @ dateStr @ ''-'' @ timeStr)"

text \<open>Lines 370-388: the walk over the ledger of one return item.\<close>

fun restore_walk :: "string \<Rightarrow> return_request \<Rightarrow> int \<Rightarrow> BatchDeduction list \<Rightarrow> return_item_row list" where
  "restore_walk return_id item remainingReturnQty [] = []"
| "restore_walk return_id item remainingReturnQty (deduction # rest) =
     (if remainingReturnQty \<le> 0 then []
      else (let restoreQty = min (bd_quantity deduction) remainingReturnQty
            in if 0 < restoreQty
               then \<lparr>ri_return_id = return_id,
                     ri_sale_item_id = rq_sale_item_id item,
                     ri_product_id = rq_product_id item,
                     ri_batch_id = Some (bd_batch_id deduction),
                     ri_quantity = restoreQty\<rparr>
                    # restore_walk return_id item (remainingReturnQty - restoreQty) rest
               else restore_walk return_id item remainingReturnQty rest))"

text \<open>Lines 389-398: the row pushed when the item has no ledger.\<close>

definition fallback_row :: "string \<Rightarrow> return_request \<Rightarrow> return_item_row" where
  "fallback_row return_id item =
     \<lparr>ri_return_id = return_id,
      ri_sale_item_id = rq_sale_item_id item,
      ri_product_id = rq_product_id item,
      ri_batch_id = None,
      ri_quantity = rq_quantity item\<rparr>"

text \<open>Lines 365-398: the rows one return item adds to \<open>returnItemsData\<close>.\<close>

definition return_rows :: "string \<Rightarrow> return_request \<Rightarrow> return_item_row list" where
  "return_rows return_id item =
     (case rq_batch_deductions item of
        None \<Rightarrow> [fallback_row return_id item]
      | Some ledger \<Rightarrow>
          if 0 < length ledger then restore_walk return_id item (rq_quantity item) ledger
          else [fallback_row return_id item])"

text \<open>
  Line 385: a batch id enters \<open>batchIdsToFetch\<close> with every row pushed by the walk; the
  fallback row adds none.
\<close>

definition row_batch_ids :: "return_item_row list \<Rightarrow> string list" where
  "row_batch_ids rows = concat (map (\<lambda>r. case ri_batch_id r of None \<Rightarrow> [] | Some b \<Rightarrow> [b]) rows)"

text \<open>
  Lines 421-428: the updates, with the running map. \<^verbatim>\<open>if (item.batch_id)\<close> skips a null
  and an empty batch id.
\<close>

fun restore_updates :: "(string \<rightharpoonup> int) \<Rightarrow> return_item_row list \<Rightarrow> (string \<times> int) list" where
  "restore_updates batchMap [] = []"
| "restore_updates batchMap (item # rest) =
     (case ri_batch_id item of
        None \<Rightarrow> restore_updates batchMap rest
      | Some b \<Rightarrow>
          if b = [] then restore_updates batchMap rest
          else (let newQty = get_or_zero batchMap b + ri_quantity item
                in (b, newQty) # restore_updates (batchMap(b \<mapsto> newQty)) rest))"

text \<open>Lines 410-440: the stock after the return, and the value thrown if any.\<close>

definition apply_restorations ::
  "fault \<Rightarrow> (nat \<Rightarrow> fault) \<Rightarrow> return_item_row list \<Rightarrow> (string \<rightharpoonup> int) \<Rightarrow> (string \<rightharpoonup> int) \<times> exn option"
where
  "apply_restorations sel upd returnItemsData stock =
     (let batchIdsToFetch = collect_ids (row_batch_ids returnItemsData)
      in if batchIdsToFetch = [] then (stock, None)
         else (case sel of
                 Rejected e \<Rightarrow> (stock, Some e)
               | ErrorReturned e \<Rightarrow> (stock, None)
               | Performed \<Rightarrow>
                   apply_updates upd 0
                     (restore_updates (map_of (fetch_batches stock batchIdsToFetch)) returnItemsData) stock))"

definition processReturn_try ::
  "return_env \<Rightarrow> store \<Rightarrow> string \<Rightarrow> return_request list \<Rightarrow> string \<Rightarrow> return_result outcome \<times> store"
where
  "processReturn_try env st saleId returnItems returnReason =
     (if saleId = [] \<or> length returnItems = 0
      then (Returned \<lparr>ret_success = False, ret_error = Some ''Invalid return request''\<rparr>, st)
      else (case re_insert_return env of
              Rejected e \<Rightarrow> (Thrown e, st)
            | ErrorReturned e \<Rightarrow> (Thrown e, st)
            | Performed \<Rightarrow>
                (let returnData = \<lparr>rr_id = re_return_id env,
                                    rr_sale_id = saleId,
                                    rr_receipt_number = return_receipt_number (re_iso env) (re_now env),
                                    rr_return_reason = returnReason,
                                    rr_returned_by = re_user_id env\<rparr>;
                     st1 = st\<lparr>sales_returns := sales_returns st @ [returnData]\<rparr>;
                     returnItemsData = concat (map (return_rows (rr_id returnData)) returnItems)
                 in (case (if 0 < length returnItemsData then re_insert_items env else Performed) of
                       Rejected e \<Rightarrow> (Thrown e, st1)
                     | ErrorReturned e \<Rightarrow> (Thrown e, st1)
                     | Performed \<Rightarrow>
                         (let st2 = st1\<lparr>return_items := return_items st1 @ returnItemsData\<rparr>;
                              r = apply_restorations (re_select_batches env) (re_update_batch env)
                                    returnItemsData (stock_batches st2);
                              st3 = st2\<lparr>stock_batches := fst r\<rparr>
                          in (case snd r of
                                Some e \<Rightarrow> (Thrown e, st3)
                              | None \<Rightarrow> (Returned \<lparr>ret_success = True, ret_error = None\<rparr>, st3)))))))"

text \<open>Lines 334 and 444-448: the \<^verbatim>\<open>try\<close> with its \<^verbatim>\<open>catch\<close>.\<close>

definition processReturn ::
  "return_env \<Rightarrow> store \<Rightarrow> string \<Rightarrow> return_request list \<Rightarrow> string \<Rightarrow> return_result outcome \<times> store"
where
  "processReturn env st saleId returnItems returnReason =
     (case processReturn_try env st saleId returnItems returnReason of
        (Thrown err, st') \<Rightarrow>
          (Returned \<lparr>ret_success = False,
                     ret_error = Some (errorMessage err ''Failed to process return'')\<rparr>, st')
      | (Returned r, st') \<Rightarrow> (Returned r, st'))"

section \<open>The caller of the return flow (src/pages/Auth.tsx)\<close>

text \<open>
  Lines 510-518 (handleSubmitReturn): the return item built from a sale item of the sale
  found by its receipt, with the quantity the user selected.
\<close>

definition return_request_of :: "sale_item_row \<Rightarrow> int \<Rightarrow> return_request" where
  "return_request_of item quantity =
     \<lparr>rq_sale_item_id = si_id item,
      rq_product_id = si_product_id item,
      rq_quantity = quantity,
      rq_batch_deductions = si_batch_deductions item\<rparr>"

text \<open>
  Modelled from the spec: the spec names \<^verbatim>\<open>differenceInDays\<close>, the function of the
  date-fns library that line 419 calls; its code is not part of the sources. The model
  follows the library's algorithm, which counts full days on the local wall clock.
  Instants are milliseconds since the epoch; \<open>offset t\<close> is what the local clock is ahead
  of UTC at the instant \<open>t\<close>, in milliseconds, so that \<open>t + offset t\<close> is the reading of the
  wall clock at \<open>t\<close>. The library compares and moves dates through their local fields
  (year, month, day, hours, minutes, seconds, milliseconds): the model does so through the
  reading of the wall clock, and reads \<^verbatim>\<open>setDate\<close> as moving that reading by whole days.
\<close>

definition local_time :: "(int \<Rightarrow> int) \<Rightarrow> int \<Rightarrow> int" where
  "local_time offset t = t + offset t"

text \<open>\<^verbatim>\<open>compareLocalAsc\<close>: -1, 1 or 0 as the left reading is before, after or at the right one.\<close>

definition compareLocalAsc :: "int \<Rightarrow> int \<Rightarrow> int" where
  "compareLocalAsc l r = (if l < r then - 1 else if r < l then 1 else 0)"

text \<open>\<^verbatim>\<open>differenceInCalendarDays\<close>: the calendar day of the left reading less that of the right.\<close>

definition differenceInCalendarDays :: "int \<Rightarrow> int \<Rightarrow> int" where
  "differenceInCalendarDays l r = l div 86400000 - r div 86400000"

definition differenceInDays :: "(int \<Rightarrow> int) \<Rightarrow> int \<Rightarrow> int \<Rightarrow> int" where
  "differenceInDays offset dateLeft dateRight =
     (let l = local_time offset dateLeft;
          r = local_time offset dateRight;
          sign = compareLocalAsc l r;
          difference = abs (differenceInCalendarDays l r);
          moved = l - sign * difference * 86400000;
          isLastDayNotFull = (if compareLocalAsc moved r = - sign then 1 else 0)
      in sign * (difference - isLastDayNotFull))"

text \<open>Lines 417-428 (handleSearchReceipt): the flag \<^verbatim>\<open>returnExpired\<close> set for the sale found.\<close>

definition returnExpired :: "(int \<Rightarrow> int) \<Rightarrow> int \<Rightarrow> int \<Rightarrow> bool" where
  "returnExpired offset saleDate today = (2 < differenceInDays offset today saleDate)"

text \<open>The return is offered exactly when the flag is not set.\<close>

definition isReturnEligible :: "(int \<Rightarrow> int) \<Rightarrow> int \<Rightarrow> int \<Rightarrow> bool" where
  "isReturnEligible offset saleCreatedAt now = (\<not> returnExpired offset saleCreatedAt now)"

section \<open>Conditions and scenarios used in the statements\<close>

text \<open>Line 186: the test that rejects a cart entry.\<close>

definition cart_item_invalid :: "CartItem option \<Rightarrow> bool" where
  "cart_item_invalid it =
     (case it of None \<Rightarrow> True | Some item \<Rightarrow> ci_product_id item = [] \<or> ci_product_name item = [])"

text \<open>Line 198: the test that rejects a cart entry for lack of stock.\<close>

definition stock_insufficient :: "(string \<Rightarrow> AvailableBatch option list) \<Rightarrow> CartItem option \<Rightarrow> bool" where
  "stock_insufficient getAvailableBatches it =
     (case it of
        None \<Rightarrow> False
      | Some item \<Rightarrow> totalAvailable (getAvailableBatches (ci_product_id item)) < ci_quantity item)"

text \<open>Lines 215-220: the deduction pushed for a batch and the quantity taken from it.\<close>

definition batch_deduction :: "AvailableBatch \<Rightarrow> int \<Rightarrow> BatchDeduction" where
  "batch_deduction batch deductQty =
     \<lparr>bd_batch_id = ab_id batch,
      bd_batch_number = string_or_empty (ab_batch_number batch),
      bd_quantity = deductQty,
      bd_expiry_date = string_or_empty (ab_expiry_date batch)\<rparr>"

text \<open>\<^verbatim>\<open>batch.quantity || 0\<close> for a batch that is present.\<close>

definition batch_quantity :: "AvailableBatch \<Rightarrow> int" where
  "batch_quantity batch = quantity_or_zero (Some batch)"

text \<open>The batches that hold a positive quantity, in the order given.\<close>

definition positive_batches :: "AvailableBatch list \<Rightarrow> AvailableBatch list" where
  "positive_batches bs = filter (\<lambda>b. 0 < batch_quantity b) bs"






text \<open>Every storage call of a sale, respectively of a return, is carried out.\<close>

definition sale_storage_ok :: "sale_env \<Rightarrow> bool" where
  "sale_storage_ok env =
     (se_insert_sale env = Performed \<and> se_insert_items env = Performed
      \<and> se_select_batches env = Performed \<and> (\<forall>k. se_update_batch env k = Performed))"

definition return_storage_ok :: "return_env \<Rightarrow> bool" where
  "return_storage_ok env =
     (re_insert_return env = Performed \<and> re_insert_items env = Performed
      \<and> re_select_batches env = Performed \<and> (\<forall>k. re_update_batch env k = Performed))"

text \<open>The quantity that the rows of a return add to batch \<open>b\<close>.\<close>

definition restored_total :: "string \<Rightarrow> return_item_row list \<Rightarrow> int" where
  "restored_total b rows = sum_list (map ri_quantity (filter (\<lambda>r. ri_batch_id r = Some b) rows))"



text \<open>
  A shop with two batches of one product (the scenario of the specification: batch
  \<open>b1\<close> holds 3 and expires first, batch \<open>b2\<close> holds 10) and a second product that has a
  single batch \<open>b3\<close> holding 10; no storage call fails.
\<close>

definition shop_batches :: "string \<Rightarrow> AvailableBatch option list" where
  "shop_batches product_id =
     (if product_id = ''pA''
      then [Some \<lparr>ab_id = ''b1'', ab_batch_number = Some ''B-1'', ab_quantity = Some 3,
                   ab_expiry_date = Some ''2025-01-01''\<rparr>,
            Some \<lparr>ab_id = ''b2'', ab_batch_number = Some ''B-2'', ab_quantity = Some 10,
                   ab_expiry_date = Some ''2025-06-01''\<rparr>]
      else if product_id = ''pB''
      then [Some \<lparr>ab_id = ''b3'', ab_batch_number = Some ''B-3'', ab_quantity = Some 10,
                   ab_expiry_date = Some ''2025-03-01''\<rparr>]
      else [])"

definition shop_store :: store where
  "shop_store =
     \<lparr>sales = [], sale_items = [], sales_returns = [], return_items = [],
      stock_batches = [''b1'' \<mapsto> 3, ''b2'' \<mapsto> 10, ''b3'' \<mapsto> 10]\<rparr>"

definition shop_sale_env :: sale_env where
  "shop_sale_env =
     \<lparr>se_user_id = Some ''u1'', se_now = 1700000000000, se_big_number = (\<lambda>suffix. suffix),
      se_receipt_query = Performed,
      se_insert_sale = Performed, se_sale_id = ''s1'', se_created_at = 1700000000000,
      se_insert_items = Performed, se_item_id = (\<lambda>k. ''i'' @ show_nat k),
      se_select_batches = Performed, se_update_batch = (\<lambda>k. Performed)\<rparr>"

definition shop_return_env :: return_env where
  "shop_return_env =
     \<lparr>re_user_id = Some ''u1'', re_iso = ''2023-11-15T10:00:00.000Z'', re_now = 1700042400000,
      re_insert_return = Performed, re_return_id = ''r1'', re_insert_items = Performed,
      re_select_batches = Performed, re_update_batch = (\<lambda>k. Performed)\<rparr>"




definition cart_item :: "string \<Rightarrow> string \<Rightarrow> int \<Rightarrow> CartItem" where
  "cart_item product_id product_name quantity =
     \<lparr>ci_product_id = product_id, ci_product_name = product_name, ci_strength = None,
      ci_quantity = quantity, ci_unit_price = 10, ci_total = 10 * quantity,
      ci_available_stock = 0\<rparr>"

section \<open>FEFO allocation\<close>

lemma foldl_plus_sum_list:
  "foldl (\<lambda>sum b. sum + f b) (a::int) bs = a + sum_list (map f bs)"
  by (induction bs arbitrary: a) simp_all

lemma totalAvailable_sum_list:
  "totalAvailable bs = sum_list (map quantity_or_zero bs)"
  by (simp add: totalAvailable_def foldl_plus_sum_list)

lemma fefo_deductions_exhausted:
  "remainingQty \<le> 0 \<Longrightarrow> fefo_deductions remainingQty bs = []"
  by (cases bs) simp_all

lemma fefo_deductions_sum:
  "0 < q \<Longrightarrow> q \<le> sum_list (map quantity_or_zero (map Some bs))
     \<Longrightarrow> sum_list (map bd_quantity (fefo_deductions q (map Some bs))) = q"
proof (induction bs arbitrary: q)
  case Nil
  then show ?case by simp
next
  case (Cons b bs)
  let ?a = "quantity_or_zero (Some b)"
  show ?case
  proof (cases "?a \<le> 0")
    case True
    with Cons.prems have "q \<le> sum_list (map quantity_or_zero (map Some bs))" by simp
    with Cons.IH Cons.prems(1) True show ?thesis by (simp add: Let_def min_def)
  next
    case False
    show ?thesis
    proof (cases "q \<le> ?a")
      case True
      with Cons.prems(1) False show ?thesis
        by (simp add: Let_def min_def fefo_deductions_exhausted)
    next
      case over: False
      with Cons.prems have "0 < q - ?a" "q - ?a \<le> sum_list (map quantity_or_zero (map Some bs))"
        by simp_all
      then have "sum_list (map bd_quantity (fefo_deductions (q - ?a) (map Some bs))) = q - ?a"
        by (rule Cons.IH)
      with Cons.prems(1) False over show ?thesis by (simp add: Let_def min_def)
    qed
  qed
qed

lemma fefo_deductions_sources:
  "\<exists>src. subseq src bs \<and>
     list_all2 (\<lambda>d b. bd_batch_id d = ab_id b \<and> 0 < bd_quantity d
                  \<and> bd_quantity d \<le> quantity_or_zero (Some b))
       (fefo_deductions q (map Some bs)) src"
proof (induction bs arbitrary: q)
  case Nil
  show ?case by simp
next
  case (Cons b bs)
  show ?case
  proof (cases "q \<le> 0 \<or> min (quantity_or_zero (Some b)) q \<le> 0")
    case True
    show ?thesis
    proof (cases "q \<le> 0")
      case True
      then show ?thesis by (intro exI [of _ "[]"]) simp
    next
      case False
      from Cons.IH [of q] obtain src where
        "subseq src bs"
        "list_all2 (\<lambda>d b. bd_batch_id d = ab_id b \<and> 0 < bd_quantity d
                  \<and> bd_quantity d \<le> quantity_or_zero (Some b))
           (fefo_deductions q (map Some bs)) src"
        by blast
      note src = this
      from True False have "quantity_or_zero (Some b) \<le> 0"
        by (simp add: min_def split: if_splits)
      with False have eq: "fefo_deductions q (map Some (b # bs)) = fefo_deductions q (map Some bs)"
        by (simp add: Let_def min_def)
      from src(1) have "subseq src (b # bs)" by (rule list_emb_Cons)
      with src(2) show ?thesis unfolding eq by blast
    qed
  next
    case False
    from Cons.IH [of "q - min (quantity_or_zero (Some b)) q"] obtain src where
      "subseq src bs"
      "list_all2 (\<lambda>d b. bd_batch_id d = ab_id b \<and> 0 < bd_quantity d
                \<and> bd_quantity d \<le> quantity_or_zero (Some b))
         (fefo_deductions (q - min (quantity_or_zero (Some b)) q) (map Some bs)) src"
      by blast
    moreover from False have "0 < q" "0 < quantity_or_zero (Some b)"
      by (auto simp: min_def split: if_splits)
    ultimately show ?thesis
      by (intro exI [of _ "b # src"]) (simp add: Let_def min_def)
  qed
qed

lemma totalAvailable_batch_quantity:
  "totalAvailable (map Some bs) = sum_list (map batch_quantity bs)"
  unfolding totalAvailable_sum_list by (induction bs) (simp_all add: batch_quantity_def)

lemma positive_batches_Nil: "positive_batches [] = []"
  by (simp add: positive_batches_def)

lemma positive_batches_Cons:
  "positive_batches (x # bs)
     = (if 0 < batch_quantity x then x # positive_batches bs else positive_batches bs)"
  by (simp add: positive_batches_def)

lemma sum_le_positive_batches:
  "sum_list (map batch_quantity bs) \<le> sum_list (map batch_quantity (positive_batches bs))"
  by (induction bs) (simp_all add: positive_batches_Nil positive_batches_Cons)

lemma fefo_deductions_greedy:
  assumes "0 < q" and "q \<le> sum_list (map batch_quantity (positive_batches bs))"
  shows "\<exists>pre b post. bs = pre @ b # post
         \<and> fefo_deductions q (map Some bs)
             = map (\<lambda>x. batch_deduction x (batch_quantity x)) (positive_batches pre)
               @ [batch_deduction b (q - sum_list (map batch_quantity (positive_batches pre)))]
         \<and> sum_list (map batch_quantity (positive_batches pre)) < q
         \<and> q \<le> sum_list (map batch_quantity (positive_batches pre)) + batch_quantity b"
  using assms
proof (induction bs arbitrary: q)
  case Nil
  then show ?case by (simp add: positive_batches_def)
next
  case (Cons x bs)
  show ?case
  proof (cases "batch_quantity x \<le> 0")
    case True
    with Cons.prems(1) have eq: "fefo_deductions q (map Some (x # bs)) = fefo_deductions q (map Some bs)"
      by (simp add: batch_quantity_def Let_def min_def)
    from True Cons.prems(2) have "q \<le> sum_list (map batch_quantity (positive_batches bs))"
      by (simp add: positive_batches_Cons)
    from Cons.IH [OF Cons.prems(1) this] obtain pre b post where
      split: "bs = pre @ b # post"
      and ded: "fefo_deductions q (map Some bs)
             = map (\<lambda>x. batch_deduction x (batch_quantity x)) (positive_batches pre)
               @ [batch_deduction b (q - sum_list (map batch_quantity (positive_batches pre)))]"
      and less: "sum_list (map batch_quantity (positive_batches pre)) < q"
      and reach: "q \<le> sum_list (map batch_quantity (positive_batches pre)) + batch_quantity b"
      by blast
    from True have skip: "positive_batches (x # pre) = positive_batches pre"
      by (simp add: positive_batches_Cons)
    from split ded less reach show ?thesis
      unfolding eq
      by (intro exI [of _ "x # pre"] exI [of _ b] exI [of _ post]) (simp add: skip)
  next
    case pos: False
    show ?thesis
    proof (cases "q \<le> batch_quantity x")
      case True
      with Cons.prems(1) pos have "fefo_deductions q (map Some (x # bs)) = [batch_deduction x q]"
        by (simp add: batch_quantity_def batch_deduction_def Let_def min_def fefo_deductions_exhausted)
      with True Cons.prems(1) show ?thesis
        by (intro exI [of _ "[]"] exI [of _ x] exI [of _ bs]) (simp add: positive_batches_def)
    next
      case over: False
      with Cons.prems(1) pos have eq: "fefo_deductions q (map Some (x # bs))
          = batch_deduction x (batch_quantity x) # fefo_deductions (q - batch_quantity x) (map Some bs)"
        by (simp add: batch_quantity_def batch_deduction_def Let_def min_def)
      from over have q': "0 < q - batch_quantity x" by simp
      from pos Cons.prems(2) have "q - batch_quantity x \<le> sum_list (map batch_quantity (positive_batches bs))"
        by (simp add: positive_batches_Cons)
      from Cons.IH [OF q' this] obtain pre b post where
        split: "bs = pre @ b # post"
        and ded: "fefo_deductions (q - batch_quantity x) (map Some bs)
               = map (\<lambda>x. batch_deduction x (batch_quantity x)) (positive_batches pre)
                 @ [batch_deduction b (q - batch_quantity x - sum_list (map batch_quantity (positive_batches pre)))]"
        and less: "sum_list (map batch_quantity (positive_batches pre)) < q - batch_quantity x"
        and reach: "q - batch_quantity x \<le> sum_list (map batch_quantity (positive_batches pre)) + batch_quantity b"
        by blast
      from pos have keep: "positive_batches (x # pre) = x # positive_batches pre"
        by (simp add: positive_batches_Cons)
      have amount: "q - batch_quantity x - sum_list (map batch_quantity (positive_batches pre))
          = q - (batch_quantity x + sum_list (map batch_quantity (positive_batches pre)))"
        by simp
      from split ded less reach show ?thesis
        unfolding eq
        by (intro exI [of _ "x # pre"] exI [of _ b] exI [of _ post]) (simp add: keep amount)
    qed
  qed
qed

text \<open>
  C1. FEFO allocation: for a requested quantity \<open>q > 0\<close> and a list \<open>bs\<close> of batches whose
  quantities sum to at least \<open>q\<close>, the deductions computed by the loop of processSale sum
  exactly to \<open>q\<close>; they are taken from a subsequence \<open>src\<close> of the batches, in the order
  given, one deduction per source batch; every deduction is positive and none exceeds
  the quantity of its source batch. The batches are used up from the front of the list:
  the list splits into \<open>pre\<close>, a batch \<open>b\<close> and \<open>post\<close> such that the deductions are,
  in order, one for every batch of \<open>pre\<close> that holds a positive quantity, taking that
  batch in full, and a last one from \<open>b\<close> for what is then still missing; no batch of
  \<open>post\<close> is touched. The allocation is a function of the quantity and the batch list
  alone: it has no access to the store, so it changes no batch.
\<close>

theorem fefo_allocation_correct:
  assumes "0 < q" and "q \<le> totalAvailable (map Some bs)"
  shows "sum_list (map bd_quantity (fefo_deductions q (map Some bs))) = q
    \<and> (\<exists>src. subseq src bs \<and>
         list_all2 (\<lambda>d b. bd_batch_id d = ab_id b \<and> 0 < bd_quantity d
                      \<and> bd_quantity d \<le> quantity_or_zero (Some b))
           (fefo_deductions q (map Some bs)) src)
    \<and> (\<exists>pre b post. bs = pre @ b # post
         \<and> fefo_deductions q (map Some bs)
             = map (\<lambda>x. batch_deduction x (batch_quantity x)) (positive_batches pre)
               @ [batch_deduction b (q - sum_list (map batch_quantity (positive_batches pre)))]
         \<and> sum_list (map batch_quantity (positive_batches pre)) < q
         \<and> q \<le> sum_list (map batch_quantity (positive_batches pre)) + batch_quantity b)"
proof (intro conjI)
  show "sum_list (map bd_quantity (fefo_deductions q (map Some bs))) = q"
    using assms fefo_deductions_sum [of q bs] by (simp add: totalAvailable_sum_list)
  show "\<exists>src. subseq src bs \<and>
         list_all2 (\<lambda>d b. bd_batch_id d = ab_id b \<and> 0 < bd_quantity d
                      \<and> bd_quantity d \<le> quantity_or_zero (Some b))
           (fefo_deductions q (map Some bs)) src"
    by (rule fefo_deductions_sources)
  from assms(2) have "q \<le> sum_list (map batch_quantity bs)"
    by (simp add: totalAvailable_batch_quantity)
  also have "\<dots> \<le> sum_list (map batch_quantity (positive_batches bs))"
    by (rule sum_le_positive_batches)
  finally show "\<exists>pre b post. bs = pre @ b # post
         \<and> fefo_deductions q (map Some bs)
             = map (\<lambda>x. batch_deduction x (batch_quantity x)) (positive_batches pre)
               @ [batch_deduction b (q - sum_list (map batch_quantity (positive_batches pre)))]
         \<and> sum_list (map batch_quantity (positive_batches pre)) < q
         \<and> q \<le> sum_list (map batch_quantity (positive_batches pre)) + batch_quantity b"
    using assms(1) by (intro fefo_deductions_greedy)
qed

theorem fefo_allocation_correct_witness:
  "sum_list (map bd_quantity (fefo_deductions 5
      (map Some [\<lparr>ab_id = ''b1'', ab_batch_number = Some ''B-1'', ab_quantity = Some 3,
                   ab_expiry_date = Some ''2025-01-01''\<rparr>,
                 \<lparr>ab_id = ''b2'', ab_batch_number = Some ''B-2'', ab_quantity = Some 10,
                   ab_expiry_date = Some ''2025-06-01''\<rparr>]))) = 5
   \<and> fefo_deductions 5
      (map Some [\<lparr>ab_id = ''b1'', ab_batch_number = Some ''B-1'', ab_quantity = Some 3,
                   ab_expiry_date = Some ''2025-01-01''\<rparr>,
                 \<lparr>ab_id = ''b2'', ab_batch_number = Some ''B-2'', ab_quantity = Some 10,
                   ab_expiry_date = Some ''2025-06-01''\<rparr>])
     = [\<lparr>bd_batch_id = ''b1'', bd_batch_number = ''B-1'', bd_quantity = 3,
          bd_expiry_date = ''2025-01-01''\<rparr>,
        \<lparr>bd_batch_id = ''b2'', bd_batch_number = ''B-2'', bd_quantity = 2,
          bd_expiry_date = ''2025-06-01''\<rparr>]"
proof -
  let ?bs = "[\<lparr>ab_id = ''b1'', ab_batch_number = Some ''B-1'', ab_quantity = Some 3,
                ab_expiry_date = Some ''2025-01-01''\<rparr>,
              \<lparr>ab_id = ''b2'', ab_batch_number = Some ''B-2'', ab_quantity = Some 10,
                ab_expiry_date = Some ''2025-06-01''\<rparr>]"
  have pos: "(0::int) < 5" by simp
  have enough: "5 \<le> totalAvailable (map Some ?bs)"
    by (simp add: totalAvailable_def quantity_or_zero_def)
  have "fefo_deductions 5 (map Some ?bs)
     = [\<lparr>bd_batch_id = ''b1'', bd_batch_number = ''B-1'', bd_quantity = 3,
          bd_expiry_date = ''2025-01-01''\<rparr>,
        \<lparr>bd_batch_id = ''b2'', bd_batch_number = ''B-2'', bd_quantity = 2,
          bd_expiry_date = ''2025-06-01''\<rparr>]"
    by (simp add: quantity_or_zero_def string_or_empty_def Let_def)
  with fefo_allocation_correct [OF pos enough] show ?thesis by simp
qed


text \<open>
  The statement above ranges over lists of batches, as the declared type
  \<^verbatim>\<open>AvailableBatch[]\<close> has them. A null entry, which that type excludes, is counted as
  0 by the total of line 194-196 but ends the loop of line 209-222, so the batches behind
  it are not used.
\<close>

lemma fefo_deductions_null_entry:
  "totalAvailable (None # bs) = totalAvailable bs \<and> fefo_deductions q (None # bs) = []"
  by (simp add: totalAvailable_sum_list quantity_or_zero_def)

section \<open>Validation before any write\<close>

lemma prepare_items_rejects:
  "it \<in> set items \<Longrightarrow> cart_item_invalid it \<or> stock_insufficient gab it
     \<Longrightarrow> \<exists>msg. prepare_items gab items = Inl msg"
proof (induction items)
  case Nil
  then show ?case by simp
next
  case (Cons x xs)
  show ?case
  proof (cases "x = it")
    case True
    with Cons.prems(2) show ?thesis
      by (cases it) (auto simp: cart_item_invalid_def stock_insufficient_def split: sum.splits)
  next
    case False
    with Cons.prems have "it \<in> set xs" by simp
    with Cons.IH Cons.prems(2) obtain msg where "prepare_items gab xs = Inl msg" by blast
    then show ?thesis by (cases x) simp_all
  qed
qed



lemma processSale_rejected:
  "prepare_items gab items = Inl msg
     \<Longrightarrow> processSale env st items pm gab
          = (Returned \<lparr>res_success = False, res_error = Some msg, res_sale = None\<rparr>, st)"
  by (simp add: processSale_def processSale_try_def)

text \<open>
  C5. Validation before any write: when some entry of the cart is null, lacks a
  product id or a product name, or asks for more than its available batches hold,
  processSale returns a failure and the store it leaves is the store it found: no sale
  row, no sale item row and no batch quantity is written, however the storage calls
  would have ended.
\<close>

theorem validate_all_before_write:
  assumes "it \<in> set items" and "cart_item_invalid it \<or> stock_insufficient gab it"
  shows "\<exists>msg. processSale env st items pm gab
           = (Returned \<lparr>res_success = False, res_error = Some msg, res_sale = None\<rparr>, st)"
proof -
  from prepare_items_rejects [OF assms] obtain msg where "prepare_items gab items = Inl msg" ..
  then have "processSale env st items pm gab
      = (Returned \<lparr>res_success = False, res_error = Some msg, res_sale = None\<rparr>, st)"
    by (rule processSale_rejected)
  then show ?thesis ..
qed

theorem validate_all_before_write_witness:
  "Some (cart_item ''pB'' [] 1) \<in> set [Some (cart_item ''pA'' ''Aspirin'' 2), Some (cart_item ''pB'' [] 1)]
   \<and> cart_item_invalid (Some (cart_item ''pB'' [] 1))
   \<and> (\<exists>msg. processSale shop_sale_env shop_store
               [Some (cart_item ''pA'' ''Aspirin'' 2), Some (cart_item ''pB'' [] 1)] ''cash'' shop_batches
             = (Returned \<lparr>res_success = False, res_error = Some msg, res_sale = None\<rparr>, shop_store))"
proof -
  have mem: "Some (cart_item ''pB'' [] 1)
      \<in> set [Some (cart_item ''pA'' ''Aspirin'' 2), Some (cart_item ''pB'' [] 1)]"
    by simp
  have inv: "cart_item_invalid (Some (cart_item ''pB'' [] 1))"
    by (simp add: cart_item_invalid_def cart_item_def)
  then have "cart_item_invalid (Some (cart_item ''pB'' [] 1))
      \<or> stock_insufficient shop_batches (Some (cart_item ''pB'' [] 1))" ..
  from validate_all_before_write [OF mem this] mem inv show ?thesis by blast
qed

section \<open>Insufficient stock\<close>




lemma first_receipt: "next_receipt_number big None = ''ZZ-00001''"
proof -
  have "padStart 5 CHR ''0'' (show_int 1) = ''00001''" by code_simp
  then show ?thesis by (simp add: next_receipt_number_def)
qed

section \<open>Applying the deductions of a sale\<close>

text \<open>
  C3. The claim does not hold of the code. The loop of lines 290-296 computes every
  update from the quantity fetched before the loop and never writes the running map
  (the loop of processReturn, line 426, does). A cart with two entries for the product
  of batch \<open>b3\<close> (stock 10), asking for 3 and for 4, yields the updates \<open>(b3, 7)\<close> and
  \<open>(b3, 6)\<close>: neither is \<open>10 - (3 + 4) = 3\<close>, and the batch is left at 6.
\<close>

theorem sale_updates_use_stale_quantity:
  "fst (processSale shop_sale_env shop_store
         [Some (cart_item ''pB'' ''Brufen'' 3), Some (cart_item ''pB'' ''Brufen'' 4)]
         ''cash'' shop_batches)
     = Returned \<lparr>res_success = True, res_error = None,
         res_sale = Some \<lparr>sr_id = ''s1'', sr_receipt_number = ''ZZ-00001'', sr_total = 70,
                           sr_payment_method = ''cash'', sr_cashier_id = Some ''u1'',
                           sr_created_at = 1700000000000\<rparr>\<rparr>
   \<and> map si_batch_deductions (sale_items (snd (processSale shop_sale_env shop_store
         [Some (cart_item ''pB'' ''Brufen'' 3), Some (cart_item ''pB'' ''Brufen'' 4)]
         ''cash'' shop_batches)))
     = [Some [\<lparr>bd_batch_id = ''b3'', bd_batch_number = ''B-3'', bd_quantity = 3,
                bd_expiry_date = ''2025-03-01''\<rparr>],
        Some [\<lparr>bd_batch_id = ''b3'', bd_batch_number = ''B-3'', bd_quantity = 4,
                bd_expiry_date = ''2025-03-01''\<rparr>]]
   \<and> sale_batch_updates (map_of (fetch_batches (stock_batches shop_store) [''b3'']))
        [\<lparr>bd_batch_id = ''b3'', bd_batch_number = ''B-3'', bd_quantity = 3,
           bd_expiry_date = ''2025-03-01''\<rparr>,
         \<lparr>bd_batch_id = ''b3'', bd_batch_number = ''B-3'', bd_quantity = 4,
           bd_expiry_date = ''2025-03-01''\<rparr>]
     = [(''b3'', 7), (''b3'', 6)]
   \<and> stock_batches (snd (processSale shop_sale_env shop_store
         [Some (cart_item ''pB'' ''Brufen'' 3), Some (cart_item ''pB'' ''Brufen'' 4)]
         ''cash'' shop_batches)) ''b3'' = Some 6"
  by (simp add: processSale_def processSale_try_def cart_item_def cart_total_def
      totalAvailable_def shop_batches_def shop_store_def shop_sale_env_def quantity_or_zero_def
      string_or_empty_def apply_sale_deductions_def collect_ids_def set_add_def
      fetch_batches_def sale_batch_updates_def get_or_zero_def Let_def
      generateReceiptNumber_def latest_receipt_def first_receipt)

section \<open>Receipt numbering\<close>

lemma split_on_absent: "c \<notin> set s \<Longrightarrow> split_on c s = [s]"
  by (induction s) auto

lemma split_on_length: "length (split_on c s) = Suc (length (filter (\<lambda>x. x = c) s))"
  by (induction s) (auto split: list.splits)

lemma split_on_ZZ:
  "CHR ''-'' \<notin> set sfx \<Longrightarrow> split_on CHR ''-'' (''ZZ-'' @ sfx) = [''ZZ'', sfx]"
  by (simp add: split_on_absent)

lemma split_on_ZZ_more:
  "CHR ''-'' \<in> set sfx \<Longrightarrow> length (split_on CHR ''-'' (''ZZ-'' @ sfx)) \<noteq> 2"
proof -
  assume "CHR ''-'' \<in> set sfx"
  then have "filter (\<lambda>x. x = CHR ''-'') sfx \<noteq> []" by (simp add: filter_empty_conv)
  then have "0 < length (filter (\<lambda>x. x = CHR ''-'') sfx)" by simp
  then show ?thesis by (simp add: split_on_length)
qed

lemma digit_char_code: "d < 10 \<Longrightarrow> (of_char (digit_char d) :: nat) = 48 + d"
proof -
  assume "d < 10"
  then have "d \<in> {0, 1, 2, 3, 4, 5, 6, 7, 8, 9}" by auto
  then show ?thesis by (auto simp: digit_char_def)
qed

lemma is_digit_digit_char: "d < 10 \<Longrightarrow> is_digit (digit_char d)"
  by (simp add: is_digit_def digit_char_code)

lemma show_nat_digits: "list_all is_digit (show_nat n)"
proof (induction n rule: show_nat.induct)
  case (1 n)
  show ?case
  proof (cases "n < 10")
    case True
    then show ?thesis by (simp add: show_nat.simps [of n] is_digit_digit_char)
  next
    case False
    with 1 show ?thesis by (simp add: show_nat.simps [of n] is_digit_digit_char)
  qed
qed

lemma show_nat_nonempty: "show_nat n \<noteq> []"
  by (simp add: show_nat.simps [of n])

lemma digits_value_snoc:
  "digits_value (ds @ [c]) = 10 * digits_value ds + ((of_char c :: nat) - 48)"
  by (simp add: digits_value_def)

lemma digits_value_show_nat: "digits_value (show_nat n) = n"
proof (induction n rule: show_nat.induct)
  case (1 n)
  show ?case
  proof (cases "n < 10")
    case True
    then show ?thesis by (simp add: show_nat.simps [of n] digits_value_def digit_char_code)
  next
    case False
    with 1 have "digits_value (show_nat (n div 10)) = n div 10" by simp
    with False show ?thesis
      by (simp add: show_nat.simps [of n] digits_value_snoc digit_char_code)
  qed
qed

lemma digits_value_zeros:
  "digits_value (replicate k CHR ''0'' @ ds) = digits_value ds"
proof -
  have "foldl (\<lambda>acc c. 10 * acc + ((of_char c :: nat) - 48)) 0 (replicate k CHR ''0'') = 0"
    by (induction k) simp_all
  then show ?thesis by (simp add: digits_value_def)
qed

lemma digit_not_space_or_sign:
  "is_digit c \<Longrightarrow> \<not> is_space c \<and> c \<noteq> CHR ''-'' \<and> c \<noteq> CHR ''+''"
  by (auto simp: is_digit_def is_space_def)

lemma takeWhile_digits_then_other:
  assumes "list_all is_digit ds" and "case rest of [] \<Rightarrow> True | c # r \<Rightarrow> \<not> is_digit c"
  shows "takeWhile is_digit (ds @ rest) = ds"
proof -
  from assms(2) have "takeWhile is_digit rest = []" by (cases rest) simp_all
  moreover from assms(1) have "\<And>x. x \<in> set ds \<Longrightarrow> is_digit x" by (simp add: list_all_iff)
  then have "takeWhile is_digit (ds @ rest) = ds @ takeWhile is_digit rest"
    by (rule takeWhile_append2)
  ultimately show ?thesis by simp
qed

lemma parseInt10_digits:
  assumes "list_all is_digit ds" and "ds \<noteq> []"
    and "case rest of [] \<Rightarrow> True | c # r \<Rightarrow> \<not> is_digit c"
    and "digits_value ds < 9007199254740992"
  shows "parseInt10 (ds @ rest) = Exact (int (digits_value ds))"
proof -
  from assms(2) obtain c r where ds: "ds = c # r" by (cases ds) auto
  with assms(1) have c: "is_digit c" by simp
  have "takeWhile is_digit (ds @ rest) = ds"
    using assms(1,3) by (rule takeWhile_digits_then_other)
  moreover have "dropWhile is_space (ds @ rest) = ds @ rest"
    using c ds digit_not_space_or_sign [OF c] by simp
  moreover have "(case ds @ rest of [] \<Rightarrow> False | c # r \<Rightarrow> c = CHR ''-'') = False"
    using ds digit_not_space_or_sign [OF c] by simp
  moreover have "(case ds @ rest of [] \<Rightarrow> []
      | c # r \<Rightarrow> if c = CHR ''-'' \<or> c = CHR ''+'' then r else ds @ rest) = ds @ rest"
    using ds digit_not_space_or_sign [OF c] by simp
  ultimately show ?thesis using assms(2,4)
    by (simp only: parseInt10_def Let_def if_False if_True)
qed

lemma parseInt10_no_number:
  assumes "case sfx of [] \<Rightarrow> True | c # r \<Rightarrow> \<not> is_digit c \<and> \<not> is_space c \<and> c \<noteq> CHR ''+''"
    and "CHR ''-'' \<notin> set sfx"
  shows "parseInt10 sfx = NaN"
  using assms by (cases sfx) (auto simp: parseInt10_def Let_def)

lemma show_int_succ: "show_int (int n + 1) = show_nat (n + 1)"
proof -
  have "nat (int n + 1) = n + 1" by simp
  then show ?thesis by (simp add: show_int_def)
qed

text \<open>
  C7, as the code has it. When the lookup finds no receipt, the number is \<open>ZZ-00001\<close>.
  When the most recent receipt is \<open>ZZ-\<close> followed by the decimal digits of \<open>n\<close> (with
  any number of leading zeros), where \<open>n + 1\<close> is below \<open>2^53\<close>, the number is \<open>ZZ-\<close>
  followed by \<open>n + 1\<close> padded with zeros to at least five digits; this also holds when
  the digits are followed by further characters \<open>rest\<close> that start with a character
  other than a digit and hold no \<open>-\<close> (\<^verbatim>\<open>parseInt\<close> reads the leading digits). When the
  part after \<open>ZZ-\<close> holds a \<open>-\<close>, is empty, or starts with a character that is neither
  a digit, nor white space, nor a plus sign, the number is \<open>ZZ-00001\<close>. All this holds
  whatever is printed for numbers from \<open>2^53\<close> on (the parameter \<open>big\<close>).
\<close>

theorem receipt_numbering:
  "(latest_receipt st = None \<longrightarrow> generateReceiptNumber big Performed now st = ''ZZ-00001'')
   \<and> (latest_receipt st = Some (''ZZ-'' @ replicate k CHR ''0'' @ show_nat n @ rest)
      \<and> n + 1 < 9007199254740992
      \<and> (case rest of [] \<Rightarrow> True | c # r \<Rightarrow> \<not> is_digit c)
      \<and> CHR ''-'' \<notin> set rest
      \<longrightarrow> generateReceiptNumber big Performed now st
            = ''ZZ-'' @ padStart 5 CHR ''0'' (show_nat (n + 1)))
   \<and> (latest_receipt st = Some (''ZZ-'' @ sfx)
      \<and> (CHR ''-'' \<in> set sfx
           \<or> (case sfx of [] \<Rightarrow> True | c # r \<Rightarrow> \<not> is_digit c \<and> \<not> is_space c \<and> c \<noteq> CHR ''+''))
      \<longrightarrow> generateReceiptNumber big Performed now st = ''ZZ-00001'')"
proof (intro conjI impI)
  assume "latest_receipt st = None"
  then show "generateReceiptNumber big Performed now st = ''ZZ-00001''"
    by (simp add: generateReceiptNumber_def first_receipt)
next
  let ?ds = "replicate k CHR ''0'' @ show_nat n"
  assume a: "latest_receipt st = Some (''ZZ-'' @ replicate k CHR ''0'' @ show_nat n @ rest)
      \<and> n + 1 < 9007199254740992
      \<and> (case rest of [] \<Rightarrow> True | c # r \<Rightarrow> \<not> is_digit c)
      \<and> CHR ''-'' \<notin> set rest"
  then have latest: "latest_receipt st = Some (''ZZ-'' @ (?ds @ rest))" by simp
  have "list_all is_digit (replicate k CHR ''0'')"
    by (induction k) (simp_all add: is_digit_def)
  then have digits: "list_all is_digit ?ds"
    using show_nat_digits [of n] by simp
  have ne: "?ds \<noteq> []" by (simp add: show_nat_nonempty)
  have val: "digits_value ?ds = n" by (simp add: digits_value_zeros digits_value_show_nat)
  from a have other: "case rest of [] \<Rightarrow> True | c # r \<Rightarrow> \<not> is_digit c" by simp
  from a val have bound: "digits_value ?ds < 9007199254740992" by simp
  have parse: "parseInt10 (?ds @ rest) = Exact (int n)"
    using parseInt10_digits [OF digits ne other bound] val by simp
  have "CHR ''-'' \<notin> set ?ds"
  proof
    assume "CHR ''-'' \<in> set ?ds"
    with digits have "is_digit CHR ''-''" by (auto simp: list_all_iff)
    then show False by (simp add: is_digit_def)
  qed
  with a have "CHR ''-'' \<notin> set (?ds @ rest)" by simp
  then have "split_on CHR ''-'' (''ZZ-'' @ (?ds @ rest)) = [''ZZ'', ?ds @ rest]"
    by (rule split_on_ZZ)
  with latest parse show "generateReceiptNumber big Performed now st
      = ''ZZ-'' @ padStart 5 CHR ''0'' (show_nat (n + 1))"
    by (simp add: generateReceiptNumber_def next_receipt_number_def show_int_succ del: append.simps)
next
  assume a: "latest_receipt st = Some (''ZZ-'' @ sfx)
      \<and> (CHR ''-'' \<in> set sfx
           \<or> (case sfx of [] \<Rightarrow> True | c # r \<Rightarrow> \<not> is_digit c \<and> \<not> is_space c \<and> c \<noteq> CHR ''+''))"
  have one: "''ZZ-'' @ padStart 5 CHR ''0'' (show_int 1) = ''ZZ-00001''"
    by code_simp
  show "generateReceiptNumber big Performed now st = ''ZZ-00001''"
  proof (cases "CHR ''-'' \<in> set sfx")
    case True
    then have "length (split_on CHR ''-'' (''ZZ-'' @ sfx)) \<noteq> 2" by (rule split_on_ZZ_more)
    with a one show ?thesis
      by (simp add: generateReceiptNumber_def next_receipt_number_def del: append.simps)
  next
    case False
    then have parts: "split_on CHR ''-'' (''ZZ-'' @ sfx) = [''ZZ'', sfx]" by (rule split_on_ZZ)
    from a False have "parseInt10 sfx = NaN" by (simp add: parseInt10_no_number)
    with a one parts show ?thesis
      by (simp add: generateReceiptNumber_def next_receipt_number_def del: append.simps)
  qed
qed

theorem receipt_numbering_witness:
  "latest_receipt (shop_store\<lparr>sales := [\<lparr>sr_id = ''s0'', sr_receipt_number = ''ZZ-00007'', sr_total = 5,
        sr_payment_method = ''cash'', sr_cashier_id = None, sr_created_at = 100\<rparr>]\<rparr>) = Some ''ZZ-00007''
   \<and> generateReceiptNumber (\<lambda>suffix. suffix) Performed 200 (shop_store\<lparr>sales := [\<lparr>sr_id = ''s0'',
        sr_receipt_number = ''ZZ-00007'', sr_total = 5, sr_payment_method = ''cash'',
        sr_cashier_id = None, sr_created_at = 100\<rparr>]\<rparr>) = ''ZZ-00008''
   \<and> latest_receipt shop_store = None
   \<and> generateReceiptNumber (\<lambda>suffix. suffix) Performed 200 shop_store = ''ZZ-00001''
   \<and> latest_receipt (shop_store\<lparr>sales := [\<lparr>sr_id = ''s0'', sr_receipt_number = ''ZZ-A12'', sr_total = 5,
        sr_payment_method = ''cash'', sr_cashier_id = None, sr_created_at = 100\<rparr>]\<rparr>) = Some ''ZZ-A12''
   \<and> generateReceiptNumber (\<lambda>suffix. suffix) Performed 200 (shop_store\<lparr>sales := [\<lparr>sr_id = ''s0'',
        sr_receipt_number = ''ZZ-A12'', sr_total = 5, sr_payment_method = ''cash'',
        sr_cashier_id = None, sr_created_at = 100\<rparr>]\<rparr>) = ''ZZ-00001''
   \<and> latest_receipt (shop_store\<lparr>sales := [\<lparr>sr_id = ''s0'', sr_receipt_number = ''ZZ-1-2'', sr_total = 5,
        sr_payment_method = ''cash'', sr_cashier_id = None, sr_created_at = 100\<rparr>]\<rparr>) = Some ''ZZ-1-2''
   \<and> generateReceiptNumber (\<lambda>suffix. suffix) Performed 200 (shop_store\<lparr>sales := [\<lparr>sr_id = ''s0'',
        sr_receipt_number = ''ZZ-1-2'', sr_total = 5, sr_payment_method = ''cash'',
        sr_cashier_id = None, sr_created_at = 100\<rparr>]\<rparr>) = ''ZZ-00001''"
proof -
  let ?st7 = "shop_store\<lparr>sales := [\<lparr>sr_id = ''s0'', sr_receipt_number = ''ZZ-00007'', sr_total = 5,
        sr_payment_method = ''cash'', sr_cashier_id = None, sr_created_at = 100\<rparr>]\<rparr>"
  let ?stA = "shop_store\<lparr>sales := [\<lparr>sr_id = ''s0'', sr_receipt_number = ''ZZ-A12'', sr_total = 5,
        sr_payment_method = ''cash'', sr_cashier_id = None, sr_created_at = 100\<rparr>]\<rparr>"
  let ?stD = "shop_store\<lparr>sales := [\<lparr>sr_id = ''s0'', sr_receipt_number = ''ZZ-1-2'', sr_total = 5,
        sr_payment_method = ''cash'', sr_cashier_id = None, sr_created_at = 100\<rparr>]\<rparr>"
  have l7: "latest_receipt ?st7 = Some ''ZZ-00007''"
    by (simp add: latest_receipt_def shop_store_def ilike_ZZ_def)
  have seven: "''ZZ-'' @ replicate 4 CHR ''0'' @ show_nat 7 = ''ZZ-00007''" by code_simp
  have eight: "''ZZ-'' @ padStart 5 CHR ''0'' (show_nat (7 + 1)) = ''ZZ-00008''" by code_simp
  have l0: "latest_receipt shop_store = None"
    by (simp add: latest_receipt_def shop_store_def)
  have lA: "latest_receipt ?stA = Some (''ZZ-'' @ ''A12'')"
    by (simp add: latest_receipt_def shop_store_def ilike_ZZ_def)
  have notnum: "case ''A12'' of [] \<Rightarrow> True | c # r \<Rightarrow> \<not> is_digit c \<and> \<not> is_space c \<and> c \<noteq> CHR ''+''"
    by (simp add: is_digit_def is_space_def)
  have lD: "latest_receipt ?stD = Some (''ZZ-'' @ ''1-2'')"
    by (simp add: latest_receipt_def shop_store_def ilike_ZZ_def)
  have "generateReceiptNumber (\<lambda>suffix. suffix) Performed 200 ?st7 = ''ZZ-00008''"
    using receipt_numbering [where st = ?st7 and k = 4 and n = 7 and rest = "[]" and now = 200
        and big = "\<lambda>suffix. suffix"] l7 seven eight
    by simp
  moreover have "generateReceiptNumber (\<lambda>suffix. suffix) Performed 200 shop_store = ''ZZ-00001''"
    using receipt_numbering [where st = shop_store and now = 200 and big = "\<lambda>suffix. suffix"] l0
    by simp
  moreover have "generateReceiptNumber (\<lambda>suffix. suffix) Performed 200 ?stA = ''ZZ-00001''"
    using receipt_numbering [where st = ?stA and sfx = "''A12''" and now = 200
        and big = "\<lambda>suffix. suffix"] lA notnum
    by simp
  moreover have "generateReceiptNumber (\<lambda>suffix. suffix) Performed 200 ?stD = ''ZZ-00001''"
    using receipt_numbering [where st = ?stD and sfx = "''1-2''" and now = 200
        and big = "\<lambda>suffix. suffix"] lD
    by simp
  ultimately show ?thesis using l7 l0 lA lD by simp
qed

text \<open>
  The claim as stated fails when the suffix starts with digits but is not a number:
  \<^verbatim>\<open>parseInt\<close> reads the leading 7 of \<open>7x\<close>, and the next number is \<open>ZZ-00008\<close>, not
  \<open>ZZ-00001\<close>.
\<close>

theorem receipt_numbering_counterexample:
  "\<not> list_all is_digit ''7x''
   \<and> latest_receipt (shop_store\<lparr>sales := [\<lparr>sr_id = ''s0'', sr_receipt_number = ''ZZ-7x'', sr_total = 5,
        sr_payment_method = ''cash'', sr_cashier_id = None, sr_created_at = 100\<rparr>]\<rparr>) = Some ''ZZ-7x''
   \<and> generateReceiptNumber (\<lambda>suffix. suffix) Performed 200 (shop_store\<lparr>sales := [\<lparr>sr_id = ''s0'',
        sr_receipt_number = ''ZZ-7x'', sr_total = 5, sr_payment_method = ''cash'',
        sr_cashier_id = None, sr_created_at = 100\<rparr>]\<rparr>) = ''ZZ-00008''"
proof -
  have "padStart 5 CHR ''0'' (show_int 8) = ''00008''" by code_simp
  then have "next_receipt_number (\<lambda>suffix. suffix) (Some ''ZZ-7x'') = ''ZZ-00008''"
    by (simp add: next_receipt_number_def parseInt10_def is_space_def is_digit_def
        digits_value_def Let_def)
  then show ?thesis
    by (simp add: generateReceiptNumber_def latest_receipt_def shop_store_def ilike_ZZ_def
        is_digit_def)
qed

section \<open>Storage calls that are all carried out\<close>

lemma apply_updates_no_throw:
  "(\<forall>k. upd k = Performed) \<Longrightarrow> snd (apply_updates upd k us stock) = None"
  by (induction us arbitrary: k stock) simp_all

lemma apply_sale_deductions_no_throw:
  "(\<forall>k. upd k = Performed) \<Longrightarrow> snd (apply_sale_deductions Performed upd iwds stock) = None"
  by (simp add: apply_sale_deductions_def Let_def apply_updates_no_throw)

lemma apply_restorations_no_throw:
  "(\<forall>k. upd k = Performed) \<Longrightarrow> snd (apply_restorations Performed upd rows stock) = None"
  by (simp add: apply_restorations_def Let_def apply_updates_no_throw)

lemma processSale_performed:
  assumes "prepare_items gab items = Inr iwds" and "sale_storage_ok env"
  shows "processSale env st items pm gab =
    (Returned \<lparr>res_success = True, res_error = None,
       res_sale = Some \<lparr>sr_id = se_sale_id env,
                         sr_receipt_number = generateReceiptNumber (se_big_number env) (se_receipt_query env) (se_now env) st,
                         sr_total = cart_total items, sr_payment_method = pm,
                         sr_cashier_id = se_user_id env, sr_created_at = se_created_at env\<rparr>\<rparr>,
     st\<lparr>sales := sales st @ [\<lparr>sr_id = se_sale_id env,
                         sr_receipt_number = generateReceiptNumber (se_big_number env) (se_receipt_query env) (se_now env) st,
                         sr_total = cart_total items, sr_payment_method = pm,
                         sr_cashier_id = se_user_id env, sr_created_at = se_created_at env\<rparr>],
        sale_items := sale_items st @ sale_item_rows (se_sale_id env) (se_item_id env) 0 iwds,
        stock_batches := fst (apply_sale_deductions Performed (se_update_batch env) iwds
                               (stock_batches st))\<rparr>)"
proof -
  from assms(2) have ok: "se_insert_sale env = Performed" "se_insert_items env = Performed"
    "se_select_batches env = Performed" "\<forall>k. se_update_batch env k = Performed"
    by (simp_all add: sale_storage_ok_def)
  from ok(4) have "snd (apply_sale_deductions Performed (se_update_batch env) iwds (stock_batches st)) = None"
    by (rule apply_sale_deductions_no_throw)
  with assms(1) ok(1-3) show ?thesis
    by (simp add: processSale_def processSale_try_def Let_def)
qed

lemma processReturn_performed:
  assumes "saleId \<noteq> []" and "returnItems \<noteq> []" and "return_storage_ok env"
  shows "processReturn env st saleId returnItems reason =
    (Returned \<lparr>ret_success = True, ret_error = None\<rparr>,
     st\<lparr>sales_returns := sales_returns st @ [\<lparr>rr_id = re_return_id env, rr_sale_id = saleId,
                         rr_receipt_number = return_receipt_number (re_iso env) (re_now env),
                         rr_return_reason = reason, rr_returned_by = re_user_id env\<rparr>],
        return_items := return_items st @ concat (map (return_rows (re_return_id env)) returnItems),
        stock_batches := fst (apply_restorations Performed (re_update_batch env)
                               (concat (map (return_rows (re_return_id env)) returnItems))
                               (stock_batches st))\<rparr>)"
proof -
  from assms(3) have ok: "re_insert_return env = Performed" "re_insert_items env = Performed"
    "re_select_batches env = Performed" "\<forall>k. re_update_batch env k = Performed"
    by (simp_all add: return_storage_ok_def)
  from ok(4) have "snd (apply_restorations Performed (re_update_batch env)
      (concat (map (return_rows (re_return_id env)) returnItems)) (stock_batches st)) = None"
    by (rule apply_restorations_no_throw)
  with assms(1,2) ok(1-3) show ?thesis
    by (simp add: processReturn_def processReturn_try_def Let_def)
qed

section \<open>Stock restored by a return\<close>

lemma set_collect_ids_aux:
  "set (foldl (\<lambda>ids b. set_add b ids) acc xs) = set acc \<union> set xs"
  by (induction xs arbitrary: acc) (auto simp: set_add_def)

lemma set_collect_ids: "set (collect_ids xs) = set xs"
  by (simp add: collect_ids_def set_collect_ids_aux)

lemma map_of_fetch_batches:
  "map_of (fetch_batches stock ids) b = (if b \<in> set ids then stock b else None)"
  by (induction ids) (auto simp: fetch_batches_def split: option.splits)

lemma restored_total_Cons:
  "restored_total b (r # rows) = (if ri_batch_id r = Some b then ri_quantity r else 0) + restored_total b rows"
  by (simp add: restored_total_def)


lemma row_batch_ids_Cons:
  "row_batch_ids (r # rows) = (case ri_batch_id r of None \<Rightarrow> [] | Some x \<Rightarrow> [x]) @ row_batch_ids rows"
  by (simp add: row_batch_ids_def)

lemma restored_total_absent:
  "b \<notin> set (row_batch_ids rows) \<Longrightarrow> restored_total b rows = 0"
proof (induction rows)
  case Nil
  show ?case by (simp add: restored_total_def)
next
  case (Cons r rows)
  then show ?case
    by (auto simp: restored_total_Cons row_batch_ids_Cons split: option.splits)
qed

lemma restore_updates_stock:
  assumes "\<forall>k. upd k = Performed" and "b \<noteq> []"
  shows "(\<forall>x \<in> set (row_batch_ids rows). stock x \<noteq> None \<longrightarrow> m x = stock x)
    \<Longrightarrow> fst (apply_updates upd k (restore_updates m rows) stock) b
        = map_option (\<lambda>c. c + restored_total b rows) (stock b)"
proof (induction rows arbitrary: m stock k)
  case Nil
  show ?case by (cases "stock b") (simp_all add: restored_total_def)
next
  case (Cons r rows)
  show ?case
  proof (cases "ri_batch_id r")
    case None
    with Cons.prems have "\<forall>x \<in> set (row_batch_ids rows). stock x \<noteq> None \<longrightarrow> m x = stock x"
      by (simp add: row_batch_ids_Cons)
    from Cons.IH [OF this, of k] None show ?thesis
      by (simp add: restored_total_Cons)
  next
    case (Some x)
    from Cons.prems Some have inv: "\<forall>y \<in> set (row_batch_ids rows). stock y \<noteq> None \<longrightarrow> m y = stock y"
      and here: "stock x \<noteq> None \<longrightarrow> m x = stock x"
      by (simp_all add: row_batch_ids_Cons)
    show ?thesis
    proof (cases "x = []")
      case True
      with assms(2) have "ri_batch_id r \<noteq> Some b" using Some by auto
      with Cons.IH [OF inv, of k] Some True show ?thesis
        by (simp add: restored_total_Cons)
    next
      case False
      let ?new = "get_or_zero m x + ri_quantity r"
      let ?stock' = "if stock x = None then stock else stock(x \<mapsto> ?new)"
      have "\<forall>y \<in> set (row_batch_ids rows). ?stock' y \<noteq> None \<longrightarrow> (m(x \<mapsto> ?new)) y = ?stock' y"
        using inv by auto
      from Cons.IH [OF this, of "Suc k"]
      have step: "fst (apply_updates upd (Suc k) (restore_updates (m(x \<mapsto> ?new)) rows) ?stock') b
          = map_option (\<lambda>c. c + restored_total b rows) (?stock' b)" .
      have unfold: "fst (apply_updates upd k (restore_updates m (r # rows)) stock) b
          = fst (apply_updates upd (Suc k) (restore_updates (m(x \<mapsto> ?new)) rows) ?stock') b"
        using Some False assms(1) by (simp add: Let_def)
      show ?thesis
      proof (cases "b = x")
        case True
        show ?thesis
        proof (cases "stock x")
          case None
          with True Some show ?thesis unfolding unfold step by simp
        next
          case (Some c)
          with here have "m x = Some c" by simp
          then have "?new = c + ri_quantity r" by (simp add: get_or_zero_def)
          with True Some \<open>ri_batch_id r = Some x\<close> show ?thesis
            unfolding unfold step by (simp add: restored_total_Cons)
        qed
      next
        case neq: False
        then have "ri_batch_id r \<noteq> Some b" using Some by auto
        with neq show ?thesis unfolding unfold step by (simp add: restored_total_Cons)
      qed
    qed
  qed
qed

lemma apply_restorations_stock:
  assumes "\<forall>k. upd k = Performed" and "b \<noteq> []"
  shows "fst (apply_restorations Performed upd rows stock) b
      = map_option (\<lambda>c. c + restored_total b rows) (stock b)"
proof (cases "collect_ids (row_batch_ids rows) = []")
  case True
  then have "set (row_batch_ids rows) = {}" using set_collect_ids [of "row_batch_ids rows"] by simp
  then have "restored_total b rows = 0" by (simp add: restored_total_absent)
  with True show ?thesis by (cases "stock b") (simp_all add: apply_restorations_def)
next
  case False
  have "\<forall>x \<in> set (row_batch_ids rows). stock x \<noteq> None
      \<longrightarrow> map_of (fetch_batches stock (collect_ids (row_batch_ids rows))) x = stock x"
    by (simp add: map_of_fetch_batches set_collect_ids)
  from restore_updates_stock [OF assms this, of 0] False show ?thesis
    by (simp add: apply_restorations_def Let_def)
qed

lemma processReturn_stock:
  assumes "saleId \<noteq> []" and "returnItems \<noteq> []" and "return_storage_ok env" and "b \<noteq> []"
  shows "stock_batches (snd (processReturn env st saleId returnItems reason)) b
      = map_option (\<lambda>c. c + restored_total b (concat (map (return_rows (re_return_id env)) returnItems)))
          (stock_batches st b)"
proof -
  from assms(3) have "\<forall>k. re_update_batch env k = Performed" by (simp add: return_storage_ok_def)
  from apply_restorations_stock [OF this assms(4)] show ?thesis
    by (simp add: processReturn_performed [OF assms(1-3)])
qed

section \<open>The walk over the ledger of a return item\<close>













section \<open>A return that asks for more than the ledger holds\<close>




section \<open>Sale, then return of everything sold\<close>

text \<open>
  C4. Round trip. A cart entry for a product whose only available batch holds \<open>s\<close>, in
  the collaborator's list as in the store, asks for a quantity not above \<open>s\<close>. With
  every storage call carried out, processSale succeeds and leaves the batch at \<open>s\<close>
  less the quantity sold; processReturn, called for that sale with the sale item just
  recorded (its ledger included) and the whole quantity, succeeds and leaves the batch
  at \<open>s\<close> again.
\<close>

theorem sale_return_round_trip:
  assumes pid: "ci_product_id item \<noteq> []" and name: "ci_product_name item \<noteq> []"
    and batches: "gab (ci_product_id item) = [Some batch]"
    and qty: "ab_quantity batch = Some s" and bid: "ab_id batch \<noteq> []"
    and stock: "stock_batches st (ab_id batch) = Some s"
    and enough: "ci_quantity item \<le> s"
    and sale_ok: "sale_storage_ok env" and ret_ok: "return_storage_ok renv"
    and sid: "se_sale_id env \<noteq> []"
  shows "\<exists>sale st1 st2.
      processSale env st [Some item] pm gab
        = (Returned \<lparr>res_success = True, res_error = None, res_sale = Some sale\<rparr>, st1)
    \<and> stock_batches st1 (ab_id batch) = Some (if 0 < ci_quantity item then s - ci_quantity item else s)
    \<and> processReturn renv st1 (sr_id sale)
          [return_request_of (last (sale_items st1)) (ci_quantity item)] reason
        = (Returned \<lparr>ret_success = True, ret_error = None\<rparr>, st2)
    \<and> stock_batches st2 (ab_id batch) = Some s"
proof -
  let ?q = "ci_quantity item"
  let ?d = "\<lparr>bd_batch_id = ab_id batch, bd_batch_number = string_or_empty (ab_batch_number batch),
             bd_quantity = ?q, bd_expiry_date = string_or_empty (ab_expiry_date batch)\<rparr>"
  let ?ds = "if 0 < ?q then [?d] else []"
  let ?iwd = "\<lparr>iwd_product_id = ci_product_id item, iwd_product_name = ci_product_name item,
               iwd_quantity = ?q, iwd_unit_price = ci_unit_price item, iwd_total = ci_total item,
               iwd_batch_deductions = ?ds\<rparr>"
  let ?sale = "\<lparr>sr_id = se_sale_id env,
                sr_receipt_number = generateReceiptNumber (se_big_number env) (se_receipt_query env) (se_now env) st,
                sr_total = cart_total [Some item], sr_payment_method = pm,
                sr_cashier_id = se_user_id env, sr_created_at = se_created_at env\<rparr>"
  let ?row = "\<lparr>si_id = se_item_id env 0, si_sale_id = se_sale_id env,
               si_product_id = ci_product_id item, si_product_name = ci_product_name item,
               si_quantity = ?q, si_unit_price = ci_unit_price item, si_total = ci_total item,
               si_batch_deductions = Some ?ds\<rparr>"
  let ?req = "\<lparr>rq_sale_item_id = se_item_id env 0, rq_product_id = ci_product_id item,
               rq_quantity = ?q, rq_batch_deductions = Some ?ds\<rparr>"
  have fefo: "fefo_deductions ?q [Some batch] = ?ds"
    using qty enough by (simp add: quantity_or_zero_def Let_def min_def)
  have total: "totalAvailable [Some batch] = s"
    using qty by (simp add: totalAvailable_def quantity_or_zero_def)
  have prep: "prepare_items gab [Some item] = Inr [?iwd]"
    using pid name batches enough total by (simp add: fefo del: fefo_deductions.simps)
  define st1 where "st1 = snd (processSale env st [Some item] pm gab)"
  have sale: "processSale env st [Some item] pm gab
      = (Returned \<lparr>res_success = True, res_error = None, res_sale = Some ?sale\<rparr>, st1)"
    unfolding st1_def by (simp add: processSale_performed [OF prep sale_ok])
  from sale_ok have upd: "\<forall>k. se_update_batch env k = Performed"
    by (simp add: sale_storage_ok_def)
  have "fst (apply_sale_deductions Performed (se_update_batch env) [?iwd] (stock_batches st)) (ab_id batch)
      = Some (if 0 < ?q then s - ?q else s)"
    using stock upd
    by (simp add: apply_sale_deductions_def Let_def collect_ids_def set_add_def fetch_batches_def
        sale_batch_updates_def get_or_zero_def)
  then have stock1: "stock_batches st1 (ab_id batch) = Some (if 0 < ?q then s - ?q else s)"
    unfolding st1_def by (simp add: processSale_performed [OF prep sale_ok])
  have "sale_items st1 = sale_items st @ [?row]"
    unfolding st1_def by (simp add: processSale_performed [OF prep sale_ok])
  then have req: "return_request_of (last (sale_items st1)) ?q = ?req"
    by (simp add: return_request_of_def)
  have restored: "restored_total (ab_id batch) (concat (map (return_rows (re_return_id renv)) [?req]))
      = (if 0 < ?q then ?q else 0)"
    by (simp add: return_rows_def restored_total_def fallback_row_def Let_def)
  have ne: "[?req] \<noteq> []" by simp
  define st2 where "st2 = snd (processReturn renv st1 (se_sale_id env) [?req] reason)"
  have ret: "processReturn renv st1 (se_sale_id env) [?req] reason
      = (Returned \<lparr>ret_success = True, ret_error = None\<rparr>, st2)"
    unfolding st2_def by (simp add: processReturn_performed [OF sid ne ret_ok])
  have stock2: "stock_batches st2 (ab_id batch) = Some s"
    unfolding st2_def
    using processReturn_stock [OF sid ne ret_ok bid, of st1 reason] restored stock1
    by simp
  from sale stock1 ret stock2 req show ?thesis
    by (intro exI [of _ ?sale] exI [of _ st1] exI [of _ st2]) simp
qed

theorem sale_return_round_trip_witness:
  "ci_quantity (cart_item ''pB'' ''Brufen'' 4) \<le> 10
   \<and> stock_batches shop_store ''b3'' = Some 10
   \<and> sale_storage_ok shop_sale_env \<and> return_storage_ok shop_return_env
   \<and> (\<exists>sale st1 st2.
        processSale shop_sale_env shop_store [Some (cart_item ''pB'' ''Brufen'' 4)] ''cash'' shop_batches
          = (Returned \<lparr>res_success = True, res_error = None, res_sale = Some sale\<rparr>, st1)
      \<and> stock_batches st1 ''b3'' = Some 6
      \<and> processReturn shop_return_env st1 (sr_id sale)
            [return_request_of (last (sale_items st1)) 4] ''damaged''
          = (Returned \<lparr>ret_success = True, ret_error = None\<rparr>, st2)
      \<and> stock_batches st2 ''b3'' = Some 10)"
proof -
  let ?batch = "\<lparr>ab_id = ''b3'', ab_batch_number = Some ''B-3'', ab_quantity = Some 10,
                 ab_expiry_date = Some ''2025-03-01''\<rparr>"
  have pid: "ci_product_id (cart_item ''pB'' ''Brufen'' 4) \<noteq> []"
    and name: "ci_product_name (cart_item ''pB'' ''Brufen'' 4) \<noteq> []"
    and enough: "ci_quantity (cart_item ''pB'' ''Brufen'' 4) \<le> 10"
    and q: "ci_quantity (cart_item ''pB'' ''Brufen'' 4) = 4"
    by (simp_all add: cart_item_def)
  have batches: "shop_batches (ci_product_id (cart_item ''pB'' ''Brufen'' 4)) = [Some ?batch]"
    by (simp add: cart_item_def shop_batches_def)
  have qty: "ab_quantity ?batch = Some 10" and bid: "ab_id ?batch \<noteq> []" by simp_all
  have stock: "stock_batches shop_store (ab_id ?batch) = Some 10" by (simp add: shop_store_def)
  have sale_ok: "sale_storage_ok shop_sale_env"
    by (simp add: sale_storage_ok_def shop_sale_env_def)
  have ret_ok: "return_storage_ok shop_return_env"
    by (simp add: return_storage_ok_def shop_return_env_def)
  have sid: "se_sale_id shop_sale_env \<noteq> []" by (simp add: shop_sale_env_def)
  from sale_return_round_trip
    [where gab = shop_batches and item = "cart_item ''pB'' ''Brufen'' 4" and batch = ?batch
       and s = 10 and st = shop_store and env = shop_sale_env and renv = shop_return_env
       and pm = "''cash''" and reason = "''damaged''",
     OF pid name batches qty bid stock enough sale_ok ret_ok sid]
  show ?thesis using enough stock sale_ok ret_ok by (simp add: q)
qed

section \<open>Structured results\<close>





















text \<open>
  An error answer (as opposed to a rejection) of the read of the batches is not inspected
  by the code (line 281 takes \<^verbatim>\<open>data\<close> only, and the results of the updates of line 299
  are dropped): the sale is reported as a success and the stock is left as it was.
\<close>

lemma stock_error_answer_ignored:
  assumes "prepare_items gab items = Inr iwds" and "se_insert_sale env = Performed"
    and "se_insert_items env = Performed" and "se_select_batches env = ErrorReturned e"
  shows "(\<exists>sale. fst (processSale env st items pm gab)
              = Returned \<lparr>res_success = True, res_error = None, res_sale = Some sale\<rparr>)
    \<and> stock_batches (snd (processSale env st items pm gab)) = stock_batches st"
  using assms
  by (simp add: processSale_def processSale_try_def apply_sale_deductions_def Let_def)

section \<open>Return eligibility\<close>

lemma div_bounds:
  "86400000 * (x div 86400000) \<le> (x::int) \<and> x < 86400000 * (x div 86400000) + 86400000"
proof -
  have "x = 86400000 * (x div 86400000) + x mod 86400000" by simp
  moreover have "0 \<le> x mod 86400000" "x mod 86400000 < 86400000" by simp_all
  ultimately show ?thesis by linarith
qed

lemma days_cancel: "86400000 * x < 86400000 * y \<Longrightarrow> x < (y::int)"
  by simp

lemma differenceInDays_later:
  assumes "local_time offset y < local_time offset x"
  shows "differenceInDays offset x y = (local_time offset x - local_time offset y) div 86400000"
proof -
  define l where "l = local_time offset x"
  define r where "r = local_time offset y"
  define a where "a = r div 86400000"
  define b where "b = l div 86400000"
  define c where "c = (l - r) div 86400000"
  from assms have lt: "r < l" by (simp add: l_def r_def)
  have ra: "86400000 * a \<le> r" "r < 86400000 * a + 86400000"
    using div_bounds [of r] by (simp_all add: a_def)
  have lb: "86400000 * b \<le> l" "l < 86400000 * b + 86400000"
    using div_bounds [of l] by (simp_all add: b_def)
  have lc: "86400000 * c \<le> l - r" "l - r < 86400000 * c + 86400000"
    using div_bounds [of "l - r"] by (simp_all add: c_def)
  from lt ra(1) lb(2) have "86400000 * a < 86400000 * (b + 1)" by (simp add: algebra_simps)
  then have "a < b + 1" by (rule days_cancel)
  then have ab: "a \<le> b" by simp
  then have absd: "abs (b - a) = b - a" by simp
  have sign: "compareLocalAsc l r = 1" using lt by (simp add: compareLocalAsc_def)
  have cal: "differenceInCalendarDays l r = b - a"
    by (simp add: differenceInCalendarDays_def a_def b_def)
  have unfolded: "differenceInDays offset x y
      = 1 * ((b - a) - (if compareLocalAsc (l - 1 * (b - a) * 86400000) r = - 1 then 1 else 0))"
    unfolding differenceInDays_def Let_def l_def [symmetric] r_def [symmetric] sign cal absd ..
  have lower: "b - a - 1 \<le> c"
  proof -
    from lb(1) ra(2) lc(2) have "86400000 * (b - a - 1) < 86400000 * (c + 1)"
      by (simp add: algebra_simps)
    then have "b - a - 1 < c + 1" by (rule days_cancel)
    then show ?thesis by simp
  qed
  have upper: "c \<le> b - a"
  proof -
    from lb(2) ra(1) lc(1) have "86400000 * c < 86400000 * (b - a + 1)"
      by (simp add: algebra_simps)
    then have "c < b - a + 1" by (rule days_cancel)
    then show ?thesis by simp
  qed
  have "differenceInDays offset x y = c"
  proof (cases "l - (b - a) * 86400000 < r")
    case True
    then have "differenceInDays offset x y = b - a - 1"
      unfolding unfolded by (simp add: compareLocalAsc_def)
    moreover have "c \<le> b - a - 1"
    proof -
      from True lc(1) have "86400000 * c < 86400000 * (b - a)" by (simp add: algebra_simps)
      then have "c < b - a" by (rule days_cancel)
      then show ?thesis by simp
    qed
    ultimately show ?thesis using lower by simp
  next
    case False
    then have "differenceInDays offset x y = b - a"
      unfolding unfolded by (simp add: compareLocalAsc_def)
    moreover have "b - a \<le> c"
    proof -
      from False lc(2) have "86400000 * (b - a) < 86400000 * (c + 1)" by (simp add: algebra_simps)
      then have "b - a < c + 1" by (rule days_cancel)
      then show ?thesis by simp
    qed
    ultimately show ?thesis using upper by simp
  qed
  then show ?thesis by (simp add: c_def l_def r_def)
qed

text \<open>
  C8, as the code has it. Where the local clock has the same offset at the sale and
  now, a sale is eligible for return when exactly two days (172800000 ms) have passed,
  it is still eligible, not refused, at two days and one second, and it is refused
  when exactly three days have passed: differenceInDays counts full days only.
\<close>

theorem return_eligibility_window:
  "(offset (saleCreatedAt + 172800000) = offset saleCreatedAt
      \<longrightarrow> isReturnEligible offset saleCreatedAt (saleCreatedAt + 172800000))
   \<and> (offset (saleCreatedAt + 172801000) = offset saleCreatedAt
      \<longrightarrow> isReturnEligible offset saleCreatedAt (saleCreatedAt + 172801000))
   \<and> (offset (saleCreatedAt + 259200000) = offset saleCreatedAt
      \<longrightarrow> \<not> isReturnEligible offset saleCreatedAt (saleCreatedAt + 259200000))"
proof -
  have days: "differenceInDays offset (saleCreatedAt + e) saleCreatedAt = e div 86400000"
    if "offset (saleCreatedAt + e) = offset saleCreatedAt" and "0 < e" for e
  proof -
    from that have "local_time offset saleCreatedAt < local_time offset (saleCreatedAt + e)"
      by (simp add: local_time_def)
    from differenceInDays_later [OF this] that(1) show ?thesis
      by (simp add: local_time_def)
  qed
  show ?thesis
    using days [of 172800000] days [of 172801000] days [of 259200000]
    by (simp add: isReturnEligible_def returnExpired_def)
qed

theorem return_eligibility_window_witness:
  "isReturnEligible (\<lambda>t. 3600000) 1700000000000 (1700000000000 + 172800000)
   \<and> isReturnEligible (\<lambda>t. 3600000) 1700000000000 (1700000000000 + 172801000)
   \<and> \<not> isReturnEligible (\<lambda>t. 3600000) 1700000000000 (1700000000000 + 259200000)"
  using return_eligibility_window [where offset = "\<lambda>t. 3600000" and saleCreatedAt = 1700000000000]
  by simp

text \<open>
  The claim as stated fails at two days and one second: with a clock that keeps its
  offset, the return is still offered.
\<close>

theorem return_eligibility_counterexample:
  "isReturnEligible (\<lambda>t. 0) 1700000000000 (1700000000000 + (2 * 86400000 + 1000))"
  by (simp add: isReturnEligible_def returnExpired_def differenceInDays_def local_time_def
      compareLocalAsc_def differenceInCalendarDays_def Let_def)

end
